theory Spec2Isabelle
  imports Main "HOL-Library.AList"
begin

section \<open>Data model\<close>

text \<open>
  The plugin of \<^verbatim>\<open>src/plugin.ts\<close> drives a Pinia store through three operations
  (\<^verbatim>\<open>resetState\<close>, \<^verbatim>\<open>reconfigureState\<close>, \<^verbatim>\<open>refreshState\<close>) and an entry point that
  hands them to a caller-supplied handler. Objects are association lists in the order of
  \<^verbatim>\<open>Object.keys\<close> / \<^verbatim>\<open>Object.entries\<close>; an optional field is an \<open>option\<close>.
\<close>

type_synonym key = string

text \<open>\<^verbatim>\<open>mode: "full" | "partial"\<close> of \<^verbatim>\<open>PiniaStoreLifecycleManagerRefreshOptions\<close>.\<close>

datatype mode = Full | Partial

record PiniaStoreLifecycleManagerRefreshOptions =
  mode :: mode
  includeResetOnlyActions :: "bool option"

text \<open>One value of \<^verbatim>\<open>ActionParamsMap\<close>: \<^verbatim>\<open>{ params; resetOnly?: boolean }\<close>.\<close>

record 'v ActionParams =
  params :: "'v list"
  resetOnly :: "bool option"

text \<open>
  \<^verbatim>\<open>CleanOptions\<close> and \<^verbatim>\<open>ReconfigureOptions\<close> map property keys to new values;
  \<^verbatim>\<open>RefreshOptions\<close> is \<^verbatim>\<open>Partial<ActionParamsMap<...>>\<close>, so a key may be bound to
  \<^verbatim>\<open>undefined\<close> (\<open>None\<close>).
\<close>

type_synonym 'v CleanOptions = "(key \<times> 'v) list"
type_synonym 'v ReconfigureOptions = "(key \<times> 'v) list"
type_synonym 'v RefreshOptions = "(key \<times> 'v ActionParams option) list"

text \<open>
  A slot of \<^verbatim>\<open>lifecycleOptions\<close> holds either an object or a function. A JavaScript
  function carries its declared parameter count (\<^verbatim>\<open>.length\<close>); its body is modelled by
  what it does when invoked with the store (\<open>Some store\<close>) or with no argument
  (\<open>None\<close>): it throws (\<open>Inl\<close>), returns nothing (\<open>Inr None\<close>) or returns a mapping.
  Resolver functions read the store and do not change it.
\<close>

datatype ('s, 'm, 'e) config_source =
    Static 'm
  | Function nat "'s option \<Rightarrow> 'e + 'm option"

record ('s, 'v, 'e) lifecycleOptions =
  clean :: "('s, 'v CleanOptions, 'e) config_source option"
  reConfigure :: "('s, 'v ReconfigureOptions, 'e) config_source option"
  refresh :: "('s, 'v RefreshOptions, 'e) config_source option"
  disableListener :: "bool option"

record pluginOptions =
  disableAutoRegister :: "bool option"
  enableDebugLogs :: "bool option"
  enableSSR :: "bool option"

text \<open>\<^verbatim>\<open>typeof window\<close> and \<^verbatim>\<open>typeof document\<close> of the hosting runtime.\<close>

record environment =
  hasWindow :: bool
  hasDocument :: bool

subsection \<open>The store substrate\<close>

text \<open>
  The store and the reactivity helpers come from Pinia and Vue, which the repository
  imports; they are parameters of the model. \<open>'s\<close> is the store, \<open>'v\<close> a JavaScript
  value, \<open>'e\<close> a thrown error.
  \<^item> \<open>store_id\<close>: \<^verbatim>\<open>store.$id\<close>;
  \<^item> \<open>get_prop\<close>: the read \<^verbatim>\<open>store[key]\<close>, which returns a value or throws (a getter
    may throw) and changes nothing;
  \<^item> \<open>set_prop\<close>: the assignment \<^verbatim>\<open>store[key] = value\<close>, which may throw; an assignment
    that throws leaves the store as it was;
  \<^item> \<open>isReadonly\<close>: Vue's \<^verbatim>\<open>isReadonly\<close>;
  \<^item> \<open>truthy\<close>: JavaScript's conversion to boolean;
  \<^item> \<open>call_action\<close>: the call \<^verbatim>\<open>action(...params)\<close>, which may throw;
  \<^item> \<open>state_hasOwnProperty\<close>, \<open>state_get\<close>, \<open>state_set\<close>: \<^verbatim>\<open>store.$state\<close>;
  \<^item> \<open>ref_true\<close>: \<^verbatim>\<open>ref(true)\<close>; \<open>toRef_state\<close>: \<^verbatim>\<open>toRef(store.$state, key)\<close>.
\<close>

record ('s, 'v, 'e) substrate =
  store_id :: "'s \<Rightarrow> string"
  get_prop :: "'s \<Rightarrow> key \<Rightarrow> 'e + 'v"
  set_prop :: "'s \<Rightarrow> key \<Rightarrow> 'v \<Rightarrow> 'e + 's"
  isReadonly :: "'v \<Rightarrow> bool"
  truthy :: "'v \<Rightarrow> bool"
  call_action :: "'v \<Rightarrow> 'v list \<Rightarrow> 's \<Rightarrow> 'e + 's"
  state_hasOwnProperty :: "'s \<Rightarrow> key \<Rightarrow> bool"
  state_get :: "'s \<Rightarrow> key \<Rightarrow> 'v"
  state_set :: "'s \<Rightarrow> key \<Rightarrow> 'v \<Rightarrow> 's"
  ref_true :: "'v"
  toRef_state :: "'s \<Rightarrow> key \<Rightarrow> 'v"

subsection \<open>Console and effects\<close>

text \<open>
  The second argument of \<^verbatim>\<open>debugLog\<close> is the message, the third the data object.
  \<open>ConfigData\<close> stands for the configuration slot passed as data.
\<close>

datatype 'v log_data =
    NoData
  | ConfigData
  | ReasonData string
  | UpdateData 'v 'v
  | RefreshInitData mode bool
  | FilterData bool mode bool bool
  | ParamsData "'v list"

datatype ('v, 'e) console_line =
    ConsoleLog string string "'v log_data"
  | ConsoleWarn string key
  | ConsoleError string string 'e

text \<open>
  The history of what a run did to its surroundings: every assignment to a store property
  that was attempted, every write to \<^verbatim>\<open>store.$state\<close>, every call of a store property
  that was attempted and every call of the caller's handler, in order.
\<close>

datatype 'v effect =
    PropertyWrite key 'v
  | StateWrite key 'v
  | ActionCall key "'v list"
  | HandlerCall

record ('s, 'v, 'e) run =
  store :: 's
  console :: "('v, 'e) console_line list"
  effects :: "'v effect list"

text \<open>An operation returns the run it leaves and the error it threw, if any.\<close>

type_synonym ('s, 'v, 'e) outcome = "'e option \<times> ('s, 'v, 'e) run"

section \<open>Diagnostics (\<^verbatim>\<open>src/utils.ts\<close>)\<close>

definition debugLog ::
  "string \<Rightarrow> string \<Rightarrow> 'v log_data \<Rightarrow> ('s, 'v, 'e) run \<Rightarrow> ('s, 'v, 'e) run" where
  "debugLog storeId message data r = r\<lparr>console := console r @ [ConsoleLog storeId message data]\<rparr>"

definition devWarnNonWritable :: "string \<Rightarrow> key \<Rightarrow> ('s, 'v, 'e) run \<Rightarrow> ('s, 'v, 'e) run" where
  "devWarnNonWritable storeId propertyName r =
     r\<lparr>console := console r @ [ConsoleWarn storeId propertyName]\<rparr>"

definition devError :: "string \<Rightarrow> string \<Rightarrow> 'e \<Rightarrow> ('s, 'v, 'e) run \<Rightarrow> ('s, 'v, 'e) run" where
  "devError storeId message error r = r\<lparr>console := console r @ [ConsoleError storeId message error]\<rparr>"

section \<open>The plugin (\<^verbatim>\<open>src/plugin.ts\<close>)\<close>

text \<open>\<^verbatim>\<open>pluginOptions?.field\<close> in a condition: true only for \<^verbatim>\<open>true\<close>.\<close>

definition pluginFlag :: "(pluginOptions \<Rightarrow> bool option) \<Rightarrow> pluginOptions option \<Rightarrow> bool" where
  "pluginFlag field po = (case po of None \<Rightarrow> False | Some p \<Rightarrow> field p = Some True)"

text \<open>\<^verbatim>\<open>options.lifecycleOptions?.field\<close>.\<close>

definition lifecycleField ::
  "(('s, 'v, 'e) lifecycleOptions \<Rightarrow> 'a option) \<Rightarrow> ('s, 'v, 'e) lifecycleOptions option \<Rightarrow> 'a option" where
  "lifecycleField field lo = (case lo of None \<Rightarrow> None | Some l \<Rightarrow> field l)"

text \<open>
  The resolution of a slot (lines 152-159, 212-220, 283-291): an object is taken as it
  is; a function is called with the store when it declares a parameter, with nothing
  otherwise.
\<close>

definition resolveSource :: "('s, 'm, 'e) config_source \<Rightarrow> 's \<Rightarrow> 'e + 'm option" where
  "resolveSource src s =
     (case src of
        Static m \<Rightarrow> Inr (Some m)
      | Function len f \<Rightarrow> (if len > 0 then f (Some s) else f None))"

text \<open>The key between quotes, as the template strings write it.\<close>

definition quoted :: "key \<Rightarrow> string" where
  "quoted k = [CHR 0x27] @ k @ [CHR 0x27]"

subsection \<open>\<^verbatim>\<open>resetState\<close> and \<^verbatim>\<open>reconfigureState\<close>\<close>

text \<open>
  \<^verbatim>\<open>Array.prototype.forEach\<close> with a callback that may throw: the first throw ends the
  loop and is the loop's.
\<close>

fun forEach ::
  "('a \<Rightarrow> ('s, 'v, 'e) run \<Rightarrow> ('s, 'v, 'e) outcome) \<Rightarrow> 'a list \<Rightarrow> ('s, 'v, 'e) run \<Rightarrow>
     ('s, 'v, 'e) outcome" where
  "forEach f [] r = (None, r)"
| "forEach f (x # xs) r =
     (let out = f x r in if fst out \<noteq> None then out else forEach f xs (snd out))"

text \<open>
  The body of the \<^verbatim>\<open>forEach\<close> over the keys of the resolved mapping (lines 162-182 and
  223-248). The two bodies differ in the text of their two messages only, which are the
  parameters \<open>updated\<close> and \<open>failed\<close>. The reads of lines 163 and 170 are outside the
  \<^verbatim>\<open>try\<close>: when one throws, the callback throws. The assignment of line 172 and, under
  \<^verbatim>\<open>enableDebugLogs\<close>, the read of line 176 are inside it: when one throws, the error is
  handed to \<^verbatim>\<open>devError\<close> and the callback returns.
\<close>

definition applyKey ::
  "('s, 'v, 'e) substrate \<Rightarrow> pluginOptions option \<Rightarrow> string \<Rightarrow> string \<Rightarrow>
     key \<times> 'v \<Rightarrow> ('s, 'v, 'e) run \<Rightarrow> ('s, 'v, 'e) outcome" where
  "applyKey sub po updated failed kv r =
     (let k = fst kv; s = store r in
      case get_prop sub s k of
        Inl error \<Rightarrow> (Some error, r)
      | Inr current \<Rightarrow>
          if isReadonly sub current then
            (None,
             if pluginFlag enableDebugLogs po then devWarnNonWritable (store_id sub s) k r else r)
          else
            (case get_prop sub s k of
               Inl error \<Rightarrow> (Some error, r)
             | Inr oldValue \<Rightarrow>
                 (let r1 = r\<lparr>effects := effects r @ [PropertyWrite k (snd kv)]\<rparr>
                  in case set_prop sub s k (snd kv) of
                       Inl error \<Rightarrow> (None, devError (store_id sub s) (failed @ quoted k) error r1)
                     | Inr s' \<Rightarrow>
                         (let r2 = r1\<lparr>store := s'\<rparr>
                          in if pluginFlag enableDebugLogs po then
                               (case get_prop sub s' k of
                                  Inl error \<Rightarrow>
                                    (None, devError (store_id sub s') (failed @ quoted k) error r2)
                                | Inr newValue \<Rightarrow>
                                    (None, debugLog (store_id sub s') (updated @ quoted k)
                                             (UpdateData oldValue newValue) r2))
                             else (None, r2)))))"

definition resetKey ::
  "('s, 'v, 'e) substrate \<Rightarrow> pluginOptions option \<Rightarrow> key \<times> 'v \<Rightarrow> ('s, 'v, 'e) run \<Rightarrow>
     ('s, 'v, 'e) outcome" where
  "resetKey sub po = applyKey sub po ''Reset state: Updated '' ''Failed to reset state for key ''"

definition reconfigureKey ::
  "('s, 'v, 'e) substrate \<Rightarrow> pluginOptions option \<Rightarrow> key \<times> 'v \<Rightarrow> ('s, 'v, 'e) run \<Rightarrow>
     ('s, 'v, 'e) outcome" where
  "reconfigureKey sub po =
     applyKey sub po ''Reconfigure state: Updated '' ''Failed to reconfigure state for key ''"

definition resetState ::
  "('s, 'v, 'e) substrate \<Rightarrow> pluginOptions option \<Rightarrow> ('s, 'v, 'e) lifecycleOptions option \<Rightarrow>
     ('s, 'v, 'e) run \<Rightarrow> ('s, 'v, 'e) outcome" where
  "resetState sub po lo r =
     (let dbg = pluginFlag enableDebugLogs po;
          r1 = (if dbg then debugLog (store_id sub (store r)) ''Initiating reset state operation''
                              ConfigData r
                else r)
      in case lifecycleField clean lo of
           None \<Rightarrow>
             (None,
              if dbg then debugLog (store_id sub (store r1))
                            ''Reset state operation skipped: No clean options defined'' NoData r1
              else r1)
         | Some src \<Rightarrow>
             (case resolveSource src (store r1) of
                Inl error \<Rightarrow> (Some error, r1)
              | Inr cleanOptions \<Rightarrow>
                  (let out = (case cleanOptions of
                                None \<Rightarrow> (None, r1)
                              | Some m \<Rightarrow> forEach (resetKey sub po) m r1);
                       r2 = snd out
                   in if fst out \<noteq> None then out
                      else (None,
                            if dbg then debugLog (store_id sub (store r2))
                                          ''Reset state operation completed'' NoData r2
                            else r2))))"

definition reconfigureState ::
  "('s, 'v, 'e) substrate \<Rightarrow> pluginOptions option \<Rightarrow> ('s, 'v, 'e) lifecycleOptions option \<Rightarrow>
     ('s, 'v, 'e) run \<Rightarrow> ('s, 'v, 'e) outcome" where
  "reconfigureState sub po lo r =
     (let dbg = pluginFlag enableDebugLogs po;
          r1 = (if dbg then debugLog (store_id sub (store r)) ''Initiating reconfigure state operation''
                              ConfigData r
                else r)
      in case lifecycleField reConfigure lo of
           None \<Rightarrow>
             (None,
              if dbg then debugLog (store_id sub (store r1))
                            ''Reconfigure state operation skipped: No reconfigure options defined''
                            NoData r1
              else r1)
         | Some src \<Rightarrow>
             (case resolveSource src (store r1) of
                Inl error \<Rightarrow> (Some error, r1)
              | Inr reconfigureOptions \<Rightarrow>
                  (let out = (case reconfigureOptions of
                                None \<Rightarrow> (None, r1)
                              | Some m \<Rightarrow> forEach (reconfigureKey sub po) m r1);
                       r2 = snd out
                   in if fst out \<noteq> None then out
                      else (None,
                            if dbg then debugLog (store_id sub (store r2))
                                          ''Reconfigure state operation completed'' NoData r2
                            else r2))))"

subsection \<open>\<^verbatim>\<open>refreshState\<close>\<close>

text \<open>\<^verbatim>\<open>value?.resetOnly ?? false\<close> (line 297).\<close>

definition actionResetOnly :: "'v ActionParams option \<Rightarrow> bool" where
  "actionResetOnly v =
     (case v of
        None \<Rightarrow> False
      | Some a \<Rightarrow> (case resetOnly a of None \<Rightarrow> False | Some b \<Rightarrow> b))"

text \<open>The filter's decision (lines 298-302).\<close>

definition shouldInclude :: "mode \<Rightarrow> bool \<Rightarrow> 'v ActionParams option \<Rightarrow> bool" where
  "shouldInclude md inc v =
     (if md = Full then \<not> inc \<or> (inc \<and> actionResetOnly v) else \<not> actionResetOnly v)"

text \<open>
  \<^verbatim>\<open>Object.fromEntries(Object.entries(refreshResult).filter(...))\<close> (lines 294-314): the
  callback logs its decision for every entry and keeps the entries it includes.
\<close>

fun filterEntries ::
  "('s, 'v, 'e) substrate \<Rightarrow> pluginOptions option \<Rightarrow> mode \<Rightarrow> bool \<Rightarrow> 'v RefreshOptions \<Rightarrow>
     ('s, 'v, 'e) run \<Rightarrow> 'v RefreshOptions \<times> ('s, 'v, 'e) run" where
  "filterEntries sub po md inc [] r = ([], r)"
| "filterEntries sub po md inc ((k, v) # rest) r =
     (let r1 = (if pluginFlag enableDebugLogs po
                then debugLog (store_id sub (store r)) (''Filtering refresh action: '' @ k)
                       (FilterData (shouldInclude md inc v) md inc (actionResetOnly v)) r
                else r);
          res = filterEntries sub po md inc rest r1
      in (if shouldInclude md inc v then (k, v) # fst res else fst res, snd res))"

text \<open>
  The \<^verbatim>\<open>forEach\<close> over the filtered entries (lines 316-333). Neither the read of line
  318 nor the call of line 327 is in a \<^verbatim>\<open>try\<close>: when one throws, the loop ends and
  \<^verbatim>\<open>refreshState\<close> throws.
\<close>

fun dispatchEntries ::
  "('s, 'v, 'e) substrate \<Rightarrow> pluginOptions option \<Rightarrow> 'v RefreshOptions \<Rightarrow>
     ('s, 'v, 'e) run \<Rightarrow> ('s, 'v, 'e) outcome" where
  "dispatchEntries sub po [] r = (None, r)"
| "dispatchEntries sub po ((k, v) # rest) r =
     (case get_prop sub (store r) k of
        Inl error \<Rightarrow> (Some error, r)
      | Inr action \<Rightarrow>
          if truthy sub action then
            (let ps = (case v of None \<Rightarrow> [] | Some a \<Rightarrow> params a);
                 r1 = (if pluginFlag enableDebugLogs po
                       then debugLog (store_id sub (store r)) (''Executing refresh action: '' @ k)
                              (ParamsData ps) r
                       else r);
                 r2 = r1\<lparr>effects := effects r1 @ [ActionCall k ps]\<rparr>
             in case call_action sub action ps (store r2) of
                  Inl error \<Rightarrow> (Some error, r2)
                | Inr s' \<Rightarrow> dispatchEntries sub po rest (r2\<lparr>store := s'\<rparr>))
          else
            dispatchEntries sub po rest
              (if pluginFlag enableDebugLogs po
               then debugLog (store_id sub (store r)) (''Skipped non-existent refresh action: '' @ k)
                      NoData r
               else r))"

text \<open>\<^verbatim>\<open>const { mode, includeResetOnlyActions = false } = refreshOptions\<close> (line 263).\<close>

definition includeFlag :: "PiniaStoreLifecycleManagerRefreshOptions \<Rightarrow> bool" where
  "includeFlag ro = (case includeResetOnlyActions ro of None \<Rightarrow> False | Some b \<Rightarrow> b)"

definition refreshState ::
  "('s, 'v, 'e) substrate \<Rightarrow> pluginOptions option \<Rightarrow> ('s, 'v, 'e) lifecycleOptions option \<Rightarrow>
     PiniaStoreLifecycleManagerRefreshOptions \<Rightarrow> ('s, 'v, 'e) run \<Rightarrow> ('s, 'v, 'e) outcome" where
  "refreshState sub po lo refreshOptions r =
     (let md = mode refreshOptions;
          inc = includeFlag refreshOptions;
          dbg = pluginFlag enableDebugLogs po;
          r1 = (if dbg then debugLog (store_id sub (store r)) ''Initiating refresh action''
                              (RefreshInitData md inc) r
                else r)
      in case lifecycleField refresh lo of
           None \<Rightarrow>
             (None,
              if dbg then debugLog (store_id sub (store r1))
                            ''Refresh action skipped: No refresh options defined'' NoData r1
              else r1)
         | Some src \<Rightarrow>
             (case resolveSource src (store r1) of
                Inl error \<Rightarrow> (Some error, r1)
              | Inr None \<Rightarrow>
                  (let r2 = (if dbg then debugLog (store_id sub (store r1))
                                           ''Refresh action skipped: Invalid refresh result'' NoData r1
                             else r1)
                   in (None,
                       if dbg then debugLog (store_id sub (store r2)) ''Refresh action completed''
                                     NoData r2
                       else r2))
              | Inr (Some refreshResult) \<Rightarrow>
                  (let filtered = filterEntries sub po md inc refreshResult r1;
                       out = dispatchEntries sub po (fst filtered) (snd filtered);
                       r3 = snd out
                   in if fst out \<noteq> None then out
                      else (None,
                            if dbg then debugLog (store_id sub (store r3))
                                          ''Refresh action completed'' NoData r3
                            else r3))))"

subsection \<open>The entry point\<close>

text \<open>
  The object handed to \<^verbatim>\<open>lifecycleEventHandler\<close> (lines 99-103): the three operations,
  bound to the store, the options and the plugin options of this invocation. The handler
  is the caller's code: it may run the operations, change the run, or throw.
\<close>

record ('s, 'v, 'e) lifecycleEvents =
  ev_reset :: "('s, 'v, 'e) run \<Rightarrow> ('s, 'v, 'e) outcome"
  ev_reconfigure :: "('s, 'v, 'e) run \<Rightarrow> ('s, 'v, 'e) outcome"
  ev_refresh :: "PiniaStoreLifecycleManagerRefreshOptions \<Rightarrow> ('s, 'v, 'e) run \<Rightarrow> ('s, 'v, 'e) outcome"

type_synonym ('s, 'v, 'e) lifecycleEventHandler =
  "('s, 'v, 'e) lifecycleEvents \<Rightarrow> ('s, 'v, 'e) run \<Rightarrow> ('s, 'v, 'e) outcome"

text \<open>The registration policy of lines 85-88.\<close>

definition registrationPolicy ::
  "pluginOptions option \<Rightarrow> ('s, 'v, 'e) lifecycleOptions option \<Rightarrow> bool" where
  "registrationPolicy po lo =
     ((\<not> pluginFlag disableAutoRegister po \<and> lifecycleField disableListener lo \<noteq> Some True) \<or>
      (pluginFlag disableAutoRegister po \<and> lifecycleField disableListener lo = Some False))"

definition PiniaStoreLifecycleManager ::
  "('s, 'v, 'e) substrate \<Rightarrow> environment \<Rightarrow> ('s, 'v, 'e) lifecycleOptions option \<Rightarrow>
     ('s, 'v, 'e) lifecycleEventHandler \<Rightarrow> pluginOptions option \<Rightarrow>
     ('s, 'v, 'e) run \<Rightarrow> ('s, 'v, 'e) outcome" where
  "PiniaStoreLifecycleManager sub env lo handler po r =
     (let dbg = pluginFlag enableDebugLogs po in
      if (\<not> hasWindow env \<or> \<not> hasDocument env) \<and> \<not> pluginFlag enableSSR po then
        (None,
         if dbg then debugLog (store_id sub (store r))
                       ''PiniaStoreLifecycleManager is not running on the client side.'' NoData r
         else r)
      else if \<not> state_hasOwnProperty sub (store r) ''hasStoreLifecycleManagerListener'' \<and>
              registrationPolicy po lo then
        (let v = ref_true sub;
             r1 = r\<lparr>store := state_set sub (store r) ''_hasStoreLifecycleManagerListener'' v,
                     effects := effects r @ [StateWrite ''_hasStoreLifecycleManagerListener'' v]\<rparr>;
             r2 = (if dbg then debugLog (store_id sub (store r1))
                                 ''Attaching PiniaStoreLifecycleManager listener'' NoData r1
                   else r1);
             r3 = r2\<lparr>effects := effects r2 @ [HandlerCall]\<rparr>;
             out = handler \<lparr>ev_reset = resetState sub po lo,
                            ev_reconfigure = reconfigureState sub po lo,
                            ev_refresh = refreshState sub po lo\<rparr> r3;
             r4 = snd out
         in if fst out \<noteq> None then out
            else
              (let w = toRef_state sub (store r4) ''_hasStoreLifecycleManagerListener'';
                   r5 = r4\<lparr>effects := effects r4 @
                              [PropertyWrite ''_hasStoreLifecycleManagerListener'' w]\<rparr>
               in case set_prop sub (store r5) ''_hasStoreLifecycleManagerListener'' w of
                    Inl error \<Rightarrow> (Some error, r5)
                  | Inr s' \<Rightarrow>
                      (None,
                       if dbg then debugLog (store_id sub s')
                                     ''PiniaStoreLifecycleManager listener attached successfully''
                                     NoData (r5\<lparr>store := s'\<rparr>)
                       else r5\<lparr>store := s'\<rparr>)))
      else
        (None,
         if dbg then debugLog (store_id sub (store r))
                       ''Skipping PiniaStoreLifecycleManager listener attachment''
                       (ReasonData
                          (if truthy sub (state_get sub (store r) ''hasStoreLifecycleManagerListener'')
                           then ''Already attached'' else ''Disabled by configuration'')) r
         else r))"

section \<open>Notions used by the statements\<close>

text \<open>Store options that declare one slot as an object and nothing else.\<close>

definition withClean :: "'v CleanOptions \<Rightarrow> ('s, 'v, 'e) lifecycleOptions option" where
  "withClean m = Some \<lparr>clean = Some (Static m), reConfigure = None, refresh = None,
                        disableListener = None\<rparr>"

definition withReConfigure :: "'v ReconfigureOptions \<Rightarrow> ('s, 'v, 'e) lifecycleOptions option" where
  "withReConfigure m = Some \<lparr>clean = None, reConfigure = Some (Static m), refresh = None,
                              disableListener = None\<rparr>"

definition withRefresh :: "'v RefreshOptions \<Rightarrow> ('s, 'v, 'e) lifecycleOptions option" where
  "withRefresh m = Some \<lparr>clean = None, reConfigure = None, refresh = Some (Static m),
                          disableListener = None\<rparr>"

text \<open>
  The keys of the mapping a slot resolves to on a store; none when the slot is not
  declared, when its function throws and when it returns nothing.
\<close>

definition slotKeys ::
  "(('s, 'v, 'e) lifecycleOptions \<Rightarrow> ('s, (key \<times> 'a) list, 'e) config_source option) \<Rightarrow>
     ('s, 'v, 'e) lifecycleOptions option \<Rightarrow> 's \<Rightarrow> key set" where
  "slotKeys field lo s =
     (case lifecycleField field lo of
        None \<Rightarrow> {}
      | Some src \<Rightarrow>
          (case resolveSource src s of
             Inl error \<Rightarrow> {}
           | Inr None \<Rightarrow> {}
           | Inr (Some m) \<Rightarrow> fst ` set m))"

text \<open>
  What an operation does apart from its diagnostics: the error it throws, the store it
  leaves and the history of its effects.
\<close>

definition behaviour :: "('s, 'v, 'e) outcome \<Rightarrow> 'e option \<times> 's \<times> 'v effect list" where
  "behaviour out = (fst out, store (snd out), effects (snd out))"

text \<open>
  The pass over a mapping, read off the store alone. One step throws what the read of the
  key throws, leaves a key classified read-only alone, and otherwise attempts the
  assignment, which changes the store when it succeeds.
\<close>

definition keyStep ::
  "('s, 'v, 'e) substrate \<Rightarrow> key \<times> 'v \<Rightarrow> 's \<Rightarrow> 'e option \<times> 's \<times> 'v effect list" where
  "keyStep sub kv s =
     (case get_prop sub s (fst kv) of
        Inl error \<Rightarrow> (Some error, s, [])
      | Inr current \<Rightarrow>
          if isReadonly sub current then (None, s, [])
          else (None,
                (case set_prop sub s (fst kv) (snd kv) of Inl error \<Rightarrow> s | Inr s' \<Rightarrow> s'),
                [PropertyWrite (fst kv) (snd kv)]))"

fun passKeys ::
  "('s, 'v, 'e) substrate \<Rightarrow> (key \<times> 'v) list \<Rightarrow> 's \<Rightarrow> 'e option \<times> 's \<times> 'v effect list" where
  "passKeys sub [] s = (None, s, [])"
| "passKeys sub (kv # m) s =
     (let a = keyStep sub kv s
      in if fst a \<noteq> None then a
         else (let b = passKeys sub m (fst (snd a))
               in (fst b, fst (snd b), snd (snd a) @ snd (snd b))))"

text \<open>
  What an operation on a slot of property values does, read off the store alone: it
  throws what the slot's function throws, does nothing when the slot is not declared or
  resolves to nothing, and otherwise makes one pass over the resolved mapping.
\<close>

definition slotBehaviour ::
  "('s, 'v, 'e) substrate \<Rightarrow>
     (('s, 'v, 'e) lifecycleOptions \<Rightarrow> ('s, (key \<times> 'v) list, 'e) config_source option) \<Rightarrow>
     ('s, 'v, 'e) lifecycleOptions option \<Rightarrow> ('s, 'v, 'e) run \<Rightarrow> 'e option \<times> 's \<times> 'v effect list" where
  "slotBehaviour sub field lo r =
     (case lifecycleField field lo of
        None \<Rightarrow> (None, store r, effects r)
      | Some src \<Rightarrow>
          (case resolveSource src (store r) of
             Inl error \<Rightarrow> (Some error, store r, effects r)
           | Inr None \<Rightarrow> (None, store r, effects r)
           | Inr (Some m) \<Rightarrow>
               (let res = passKeys sub m (store r)
                in (fst res, fst (snd res), effects r @ snd (snd res)))))"

text \<open>The dispatch over the filtered entries, read off the store alone.\<close>

fun passDispatch ::
  "('s, 'v, 'e) substrate \<Rightarrow> 'v RefreshOptions \<Rightarrow> 's \<Rightarrow> 'e option \<times> 's \<times> 'v effect list" where
  "passDispatch sub [] s = (None, s, [])"
| "passDispatch sub ((k, v) # rest) s =
     (case get_prop sub s k of
        Inl error \<Rightarrow> (Some error, s, [])
      | Inr action \<Rightarrow>
          if truthy sub action then
            (let ps = (case v of None \<Rightarrow> [] | Some a \<Rightarrow> params a)
             in case call_action sub action ps s of
                  Inl error \<Rightarrow> (Some error, s, [ActionCall k ps])
                | Inr s' \<Rightarrow>
                    (let res = passDispatch sub rest s'
                     in (fst res, fst (snd res), ActionCall k ps # snd (snd res))))
          else passDispatch sub rest s)"

text \<open>What \<^verbatim>\<open>refreshState\<close> does, read off the store alone.\<close>

definition refreshBehaviour ::
  "('s, 'v, 'e) substrate \<Rightarrow> ('s, 'v, 'e) lifecycleOptions option \<Rightarrow>
     PiniaStoreLifecycleManagerRefreshOptions \<Rightarrow> ('s, 'v, 'e) run \<Rightarrow>
     'e option \<times> 's \<times> 'v effect list" where
  "refreshBehaviour sub lo ro r =
     (case lifecycleField refresh lo of
        None \<Rightarrow> (None, store r, effects r)
      | Some src \<Rightarrow>
          (case resolveSource src (store r) of
             Inl error \<Rightarrow> (Some error, store r, effects r)
           | Inr None \<Rightarrow> (None, store r, effects r)
           | Inr (Some m) \<Rightarrow>
               (let res = passDispatch sub
                            (filter (\<lambda>kv. shouldInclude (mode ro) (includeFlag ro) (snd kv)) m)
                            (store r)
                in (fst res, fst (snd res), effects r @ snd (snd res)))))"

text \<open>
  A key is plain when an assignment to another key does not change what it reads. State
  properties are plain; a getter computed from other properties is not.
\<close>

definition plainKey :: "('s, 'v, 'e) substrate \<Rightarrow> key \<Rightarrow> bool" where
  "plainKey sub k =
     (\<forall>s k' v s'. k' \<noteq> k \<longrightarrow> set_prop sub s k' v = Inr s' \<longrightarrow> get_prop sub s' k = get_prop sub s k)"

definition isErrorLine :: "('v, 'e) console_line \<Rightarrow> bool" where
  "isErrorLine l = (case l of ConsoleError i m e \<Rightarrow> True | _ \<Rightarrow> False)"

text \<open>
  The two operations that apply a mapping of property values, each on store options that
  declare the mapping as an object.
\<close>

definition propertyOperations ::
  "('s, 'v, 'e) substrate \<Rightarrow> pluginOptions option \<Rightarrow>
     ((key \<times> 'v) list \<Rightarrow> ('s, 'v, 'e) run \<Rightarrow> ('s, 'v, 'e) outcome) list" where
  "propertyOperations sub po =
     [\<lambda>m. resetState sub po (withClean m), \<lambda>m. reconfigureState sub po (withReConfigure m)]"

subsection \<open>A small store\<close>

text \<open>
  A store on which the operations can be run: \<^verbatim>\<open>$state\<close> and the properties are
  association lists, a value wrapped in \<open>JReadonly\<close> is what \<^verbatim>\<open>isReadonly\<close> recognises,
  the keys of \<open>ds_throwing\<close> have a setter that throws, and a function value records its
  call in \<open>ds_calls\<close>. The store definition may give a key a shape: a read-only view of
  another property, a getter computed from another property (Pinia hands out its value
  unwrapped and it has no setter), or a writable property whose getter throws while it
  holds \<^verbatim>\<open>null\<close>.
\<close>

datatype jsval =
    JUndefined
  | JNull
  | JBool bool
  | JNum int
  | JStr string
  | JReadonly jsval
  | JRef jsval
  | JFn string

record demo_store =
  ds_id :: string
  ds_state :: "(key \<times> jsval) list"
  ds_props :: "(key \<times> jsval) list"
  ds_throwing :: "key list"
  ds_calls :: "(string \<times> jsval list) list"

definition lookup :: "(key \<times> jsval) list \<Rightarrow> key \<Rightarrow> jsval" where
  "lookup m k = (case map_of m k of None \<Rightarrow> JUndefined | Some v \<Rightarrow> v)"

definition demo_set :: "demo_store \<Rightarrow> key \<Rightarrow> jsval \<Rightarrow> string + demo_store" where
  "demo_set s k v =
     (if k \<in> set (ds_throwing s) then Inl ''TypeError''
      else Inr (s\<lparr>ds_props := AList.update k v (ds_props s)\<rparr>))"

definition demo_isReadonly :: "jsval \<Rightarrow> bool" where
  "demo_isReadonly v = (case v of JReadonly w \<Rightarrow> True | _ \<Rightarrow> False)"

definition demo_truthy :: "jsval \<Rightarrow> bool" where
  "demo_truthy v =
     (case v of
        JUndefined \<Rightarrow> False
      | JNull \<Rightarrow> False
      | JBool b \<Rightarrow> b
      | JNum n \<Rightarrow> n \<noteq> 0
      | JStr s \<Rightarrow> s \<noteq> []
      | _ \<Rightarrow> True)"

definition demo_call :: "jsval \<Rightarrow> jsval list \<Rightarrow> demo_store \<Rightarrow> string + demo_store" where
  "demo_call f args s =
     (case f of
        JFn name \<Rightarrow> Inr (s\<lparr>ds_calls := ds_calls s @ [(name, args)]\<rparr>)
      | _ \<Rightarrow> Inl ''TypeError'')"

datatype shape = View key | Getter key | Strict

definition store_with :: "(key \<times> shape) list \<Rightarrow> (demo_store, jsval, string) substrate" where
  "store_with shapes =
     \<lparr>store_id = ds_id,
      get_prop = (\<lambda>s k.
        case map_of shapes k of
          None \<Rightarrow> Inr (lookup (ds_props s) k)
        | Some (View src) \<Rightarrow> Inr (JReadonly (lookup (ds_props s) src))
        | Some (Getter src) \<Rightarrow> Inr (lookup (ds_props s) src)
        | Some Strict \<Rightarrow>
            (if lookup (ds_props s) k = JNull then Inl ''TypeError''
             else Inr (lookup (ds_props s) k))),
      set_prop = (\<lambda>s k v.
        case map_of shapes k of
          Some (View src) \<Rightarrow> Inl ''TypeError''
        | Some (Getter src) \<Rightarrow> Inl ''TypeError''
        | _ \<Rightarrow> demo_set s k v),
      isReadonly = demo_isReadonly,
      truthy = demo_truthy,
      call_action = demo_call,
      state_hasOwnProperty = (\<lambda>s k. map_of (ds_state s) k \<noteq> None),
      state_get = (\<lambda>s. lookup (ds_state s)),
      state_set = (\<lambda>s k v. s\<lparr>ds_state := AList.update k v (ds_state s)\<rparr>),
      ref_true = JRef (JBool True),
      toRef_state = (\<lambda>s. lookup (ds_state s))\<rparr>"

text \<open>The store in which no key has a shape: every property is a plain cell.\<close>

definition demo :: "(demo_store, jsval, string) substrate" where
  "demo = store_with []"

definition demo_run :: "demo_store \<Rightarrow> (demo_store, jsval, string) run" where
  "demo_run s = \<lparr>store = s, console = [], effects = []\<rparr>"

definition browser :: environment where
  "browser = \<lparr>hasWindow = True, hasDocument = True\<rparr>"

text \<open>A handler that only keeps the operations for later and returns.\<close>

definition wiring_handler :: "('s, 'v, 'e) lifecycleEventHandler" where
  "wiring_handler ev r = (None, r)"

text \<open>The store of the specification's examples, with two actions and a failing setter.\<close>

definition example_store :: demo_store where
  "example_store =
     \<lparr>ds_id = ''example'',
      ds_state = [(''user'', JStr ''ann'')],
      ds_props = [(''count'', JReadonly (JNum 7)), (''user'', JStr ''ann''),
                  (''locked'', JNum 1), (''load'', JFn ''load''), (''purge'', JFn ''purge'')],
      ds_throwing = [''locked''],
      ds_calls = []\<rparr>"

definition example_refresh :: "jsval RefreshOptions" where
  "example_refresh =
     [(''load'', Some \<lparr>params = [], resetOnly = Some False\<rparr>),
      (''purge'', Some \<lparr>params = [JStr ''x''], resetOnly = Some True\<rparr>)]"

definition silent :: "pluginOptions option" where
  "silent = Some \<lparr>disableAutoRegister = None, enableDebugLogs = Some False, enableSSR = None\<rparr>"

definition verbose :: "pluginOptions option" where
  "verbose = Some \<lparr>disableAutoRegister = None, enableDebugLogs = Some True, enableSSR = None\<rparr>"

definition withSlots ::
  "('s, 'v CleanOptions, 'e) config_source option \<Rightarrow>
   ('s, 'v ReconfigureOptions, 'e) config_source option \<Rightarrow>
   ('s, 'v RefreshOptions, 'e) config_source option \<Rightarrow> ('s, 'v, 'e) lifecycleOptions option" where
  "withSlots c rc rf = Some \<lparr>clean = c, reConfigure = rc, refresh = rf, disableListener = None\<rparr>"

definition example_clean :: "jsval CleanOptions" where
  "example_clean = [(''count'', JNum 0), (''locked'', JNum 0), (''user'', JNull)]"

text \<open>
  Three sources of one mapping: the object, a function of the store (which fails when it
  gets no store) and a function without parameters; and a function that throws.
\<close>

definition store_function :: "'m \<Rightarrow> ('s, 'm, string) config_source" where
  "store_function m =
     Function 1 (\<lambda>arg. case arg of None \<Rightarrow> Inl ''TypeError'' | Some s \<Rightarrow> Inr (Some m))"

definition noarg_function :: "'m \<Rightarrow> ('s, 'm, string) config_source" where
  "noarg_function m = Function 0 (\<lambda>arg. Inr (Some m))"

definition throwing_function :: "('s, 'm, string) config_source" where
  "throwing_function = Function 1 (\<lambda>arg. Inl ''boom'')"

text \<open>Plugin options that disable the automatic registration; store options with only
  \<^verbatim>\<open>disableListener\<close>.\<close>

definition manual :: "pluginOptions option" where
  "manual = Some \<lparr>disableAutoRegister = Some True, enableDebugLogs = None, enableSSR = None\<rparr>"

definition withListener :: "bool option \<Rightarrow> ('s, 'v, 'e) lifecycleOptions option" where
  "withListener b = Some \<lparr>clean = None, reConfigure = None, refresh = None, disableListener = b\<rparr>"

text \<open>
  Three store definitions with a shaped key: \<^verbatim>\<open>profile\<close> is a read-only view of
  \<^verbatim>\<open>user\<close>; \<^verbatim>\<open>name\<close> is writable and its getter throws while it holds \<^verbatim>\<open>null\<close>;
  \<^verbatim>\<open>count\<close> is a getter computed from \<^verbatim>\<open>items\<close>.
\<close>

definition with_view :: "(demo_store, jsval, string) substrate" where
  "with_view = store_with [(''profile'', View ''user'')]"

definition with_strict :: "(demo_store, jsval, string) substrate" where
  "with_strict = store_with [(''name'', Strict)]"

definition with_getter :: "(demo_store, jsval, string) substrate" where
  "with_getter = store_with [(''count'', Getter ''items'')]"

definition shaped_store :: demo_store where
  "shaped_store =
     \<lparr>ds_id = ''shaped'',
      ds_state = [],
      ds_props = [(''user'', JStr ''ann''), (''name'', JStr ''ann''), (''items'', JNum 7)],
      ds_throwing = [],
      ds_calls = []\<rparr>"

section \<open>Basic facts\<close>

subsection \<open>The pass over a mapping\<close>

lemma debugLog_simps [simp]:
  "store (debugLog i m d r) = store r"
  "effects (debugLog i m d r) = effects r"
  "console (debugLog i m d r) = console r @ [ConsoleLog i m d]"
  by (simp_all add: debugLog_def)

lemma devWarnNonWritable_simps [simp]:
  "store (devWarnNonWritable i k r) = store r"
  "effects (devWarnNonWritable i k r) = effects r"
  "console (devWarnNonWritable i k r) = console r @ [ConsoleWarn i k]"
  by (simp_all add: devWarnNonWritable_def)

lemma devError_simps [simp]:
  "store (devError i m e r) = store r"
  "effects (devError i m e r) = effects r"
  "console (devError i m e r) = console r @ [ConsoleError i m e]"
  by (simp_all add: devError_def)

lemma isErrorLine_simps [simp]:
  "isErrorLine (ConsoleError i m e)"
  "\<not> isErrorLine (ConsoleLog i m d)"
  "\<not> isErrorLine (ConsoleWarn i k)"
  by (simp_all add: isErrorLine_def)

lemma applyKey_parts:
  "fst (applyKey sub po u f kv r) = fst (keyStep sub kv (store r))"
  "store (snd (applyKey sub po u f kv r)) = fst (snd (keyStep sub kv (store r)))"
  "effects (snd (applyKey sub po u f kv r)) = effects r @ snd (snd (keyStep sub kv (store r)))"
  by (simp_all add: applyKey_def keyStep_def Let_def split: sum.splits)

lemma forEach_parts:
  "fst (forEach (applyKey sub po u f) m r) = fst (passKeys sub m (store r))"
  "store (snd (forEach (applyKey sub po u f) m r)) = fst (snd (passKeys sub m (store r)))"
  "effects (snd (forEach (applyKey sub po u f) m r)) = effects r @ snd (snd (passKeys sub m (store r)))"
  by (induction m arbitrary: r) (simp_all add: Let_def applyKey_parts)

lemma resetState_behaviour:
  "behaviour (resetState sub po lo r) = slotBehaviour sub clean lo r"
  by (simp add: behaviour_def resetState_def resetKey_def slotBehaviour_def Let_def forEach_parts
      split: option.splits sum.splits)

lemma reconfigureState_behaviour:
  "behaviour (reconfigureState sub po lo r) = slotBehaviour sub reConfigure lo r"
  by (simp add: behaviour_def reconfigureState_def reconfigureKey_def slotBehaviour_def Let_def
      forEach_parts split: option.splits sum.splits)

subsection \<open>The refresh filter and the dispatch\<close>

lemma filterEntries_fst:
  "fst (filterEntries sub po md inc m r) = filter (\<lambda>kv. shouldInclude md inc (snd kv)) m"
  by (induction m arbitrary: r) (auto simp: Let_def)

lemma filterEntries_snd:
  "store (snd (filterEntries sub po md inc m r)) = store r \<and>
   effects (snd (filterEntries sub po md inc m r)) = effects r"
  by (induction m arbitrary: r) (auto simp: Let_def)

lemma filterEntries_silent:
  "\<not> pluginFlag enableDebugLogs po \<Longrightarrow> snd (filterEntries sub po md inc m r) = r"
  by (induction m arbitrary: r) (auto simp: Let_def)

lemma dispatchEntries_behaviour:
  "behaviour (dispatchEntries sub po es r) =
     (let res = passDispatch sub es (store r)
      in (fst res, fst (snd res), effects r @ snd (snd res)))"
proof (induction es arbitrary: r)
  case Nil
  show ?case by (simp add: behaviour_def)
next
  case (Cons kv es)
  obtain k v where kv: "kv = (k, v)" by (cases kv)
  have IH: "\<And>r. fst (dispatchEntries sub po es r) = fst (passDispatch sub es (store r)) \<and>
     store (snd (dispatchEntries sub po es r)) = fst (snd (passDispatch sub es (store r))) \<and>
     effects (snd (dispatchEntries sub po es r)) = effects r @ snd (snd (passDispatch sub es (store r)))"
    using Cons.IH by (simp add: behaviour_def Let_def)
  show ?case
    unfolding kv by (simp add: behaviour_def Let_def IH split: sum.splits)
qed

subsection \<open>The operations, read off the store\<close>

lemma refreshState_behaviour:
  "behaviour (refreshState sub po lo ro r) = refreshBehaviour sub lo ro r"
proof -
  have D: "\<And>es r'. fst (dispatchEntries sub po es r') = fst (passDispatch sub es (store r')) \<and>
     store (snd (dispatchEntries sub po es r')) = fst (snd (passDispatch sub es (store r'))) \<and>
     effects (snd (dispatchEntries sub po es r')) = effects r' @ snd (snd (passDispatch sub es (store r')))"
    using dispatchEntries_behaviour [of sub po] by (simp add: behaviour_def Let_def)
  show ?thesis
    by (simp add: behaviour_def refreshState_def refreshBehaviour_def Let_def D
        filterEntries_fst filterEntries_snd split: option.splits sum.splits)
qed

lemma resolveSource_shapes:
  "resolveSource (Static m) s = Inr (Some m)"
  "resolveSource (Function (Suc n) f) s = f (Some s)"
  "resolveSource (Function 0 f) s = f None"
  by (simp_all add: resolveSource_def)

lemma resetState_parts:
  "fst (resetState sub po lo r) = fst (slotBehaviour sub clean lo r)"
  "store (snd (resetState sub po lo r)) = fst (snd (slotBehaviour sub clean lo r))"
  "effects (snd (resetState sub po lo r)) = snd (snd (slotBehaviour sub clean lo r))"
  using resetState_behaviour [of sub po lo r, symmetric] by (simp_all add: behaviour_def)

lemma reconfigureState_parts:
  "fst (reconfigureState sub po lo r) = fst (slotBehaviour sub reConfigure lo r)"
  "store (snd (reconfigureState sub po lo r)) = fst (snd (slotBehaviour sub reConfigure lo r))"
  "effects (snd (reconfigureState sub po lo r)) = snd (snd (slotBehaviour sub reConfigure lo r))"
  using reconfigureState_behaviour [of sub po lo r, symmetric] by (simp_all add: behaviour_def)

lemma refreshState_parts:
  "fst (refreshState sub po lo ro r) = fst (refreshBehaviour sub lo ro r)"
  "store (snd (refreshState sub po lo ro r)) = fst (snd (refreshBehaviour sub lo ro r))"
  "effects (snd (refreshState sub po lo ro r)) = snd (snd (refreshBehaviour sub lo ro r))"
  using refreshState_behaviour [of sub po lo ro r, symmetric] by (simp_all add: behaviour_def)

subsection \<open>Steps of the pass\<close>

lemma keyStep_threw:
  "get_prop sub s K = Inl e \<Longrightarrow> keyStep sub (K, v) s = (Some e, s, [])"
  by (simp add: keyStep_def)

lemma keyStep_skipped:
  "get_prop sub s K = Inr w \<Longrightarrow> isReadonly sub w \<Longrightarrow> keyStep sub (K, v) s = (None, s, [])"
  by (simp add: keyStep_def)

lemma keyStep_failed:
  "get_prop sub s K = Inr w \<Longrightarrow> \<not> isReadonly sub w \<Longrightarrow> set_prop sub s K v = Inl e \<Longrightarrow>
     keyStep sub (K, v) s = (None, s, [PropertyWrite K v])"
  by (simp add: keyStep_def)

lemma keyStep_written:
  "get_prop sub s K = Inr w \<Longrightarrow> \<not> isReadonly sub w \<Longrightarrow> set_prop sub s K v = Inr s' \<Longrightarrow>
     keyStep sub (K, v) s = (None, s', [PropertyWrite K v])"
  by (simp add: keyStep_def)

lemma passKeys_append:
  "passKeys sub (xs @ ys) s =
     (let a = passKeys sub xs s
      in if fst a \<noteq> None then a
         else (let b = passKeys sub ys (fst (snd a))
               in (fst b, fst (snd b), snd (snd a) @ snd (snd b))))"
  by (induction xs arbitrary: s) (auto simp: Let_def)

lemma forEach_append:
  "forEach f (xs @ ys) r =
     (let out = forEach f xs r in if fst out \<noteq> None then out else forEach f ys (snd out))"
  by (induction xs arbitrary: r) (auto simp: Let_def)

subsection \<open>What reaches the console\<close>

lemma applyKey_silent:
  assumes "\<not> pluginFlag enableDebugLogs po"
  shows "\<exists>ls. console (snd (applyKey sub po u f kv r)) = console r @ ls \<and> list_all isErrorLine ls"
proof (cases "get_prop sub (store r) (fst kv)")
  case (Inl e)
  then show ?thesis by (simp add: applyKey_def Let_def)
next
  case (Inr w)
  show ?thesis
  proof (cases "isReadonly sub w")
    case True
    with Inr assms show ?thesis by (simp add: applyKey_def Let_def)
  next
    case False
    show ?thesis
    proof (cases "set_prop sub (store r) (fst kv) (snd kv)")
      case (Inl e)
      with Inr False have "console (snd (applyKey sub po u f kv r)) =
          console r @ [ConsoleError (store_id sub (store r)) (f @ quoted (fst kv)) e]"
        by (simp add: applyKey_def Let_def)
      then show ?thesis by simp
    next
      case (Inr s')
      with \<open>get_prop sub (store r) (fst kv) = Inr w\<close> False assms
      have "console (snd (applyKey sub po u f kv r)) = console r"
        by (simp add: applyKey_def Let_def)
      then show ?thesis by simp
    qed
  qed
qed

lemma forEach_silent:
  assumes "\<not> pluginFlag enableDebugLogs po"
  shows "\<exists>ls. console (snd (forEach (applyKey sub po u f) m r)) = console r @ ls \<and>
              list_all isErrorLine ls"
proof (induction m arbitrary: r)
  case Nil
  show ?case by simp
next
  case (Cons kv m)
  obtain l1 where l1: "console (snd (applyKey sub po u f kv r)) = console r @ l1"
      "list_all isErrorLine l1"
    using applyKey_silent [OF assms] by blast
  show ?case
  proof (cases "fst (applyKey sub po u f kv r) = None")
    case False
    with l1 show ?thesis by (simp add: Let_def)
  next
    case True
    obtain l2 where l2: "console (snd (forEach (applyKey sub po u f) m (snd (applyKey sub po u f kv r)))) =
        console (snd (applyKey sub po u f kv r)) @ l2" "list_all isErrorLine l2"
      using Cons.IH by blast
    from True l1 l2 have "console (snd (forEach (applyKey sub po u f) (kv # m) r)) =
        console r @ (l1 @ l2) \<and> list_all isErrorLine (l1 @ l2)"
      by (simp add: Let_def)
    then show ?thesis by blast
  qed
qed

lemma resetState_silent:
  assumes "\<not> pluginFlag enableDebugLogs po"
  shows "\<exists>ls. console (snd (resetState sub po lo r)) = console r @ ls \<and> list_all isErrorLine ls"
proof -
  have "\<exists>ls. console (snd (forEach (resetKey sub po) m r)) = console r @ ls \<and>
             list_all isErrorLine ls" for m
    unfolding resetKey_def by (rule forEach_silent [OF assms])
  with assms show ?thesis
    by (auto simp add: resetState_def Let_def split: option.splits sum.splits)
qed

lemma reconfigureState_silent:
  assumes "\<not> pluginFlag enableDebugLogs po"
  shows "\<exists>ls. console (snd (reconfigureState sub po lo r)) = console r @ ls \<and>
              list_all isErrorLine ls"
proof -
  have "\<exists>ls. console (snd (forEach (reconfigureKey sub po) m r)) = console r @ ls \<and>
             list_all isErrorLine ls" for m
    unfolding reconfigureKey_def by (rule forEach_silent [OF assms])
  with assms show ?thesis
    by (auto simp add: reconfigureState_def Let_def split: option.splits sum.splits)
qed

lemma dispatchEntries_silent:
  "\<not> pluginFlag enableDebugLogs po \<Longrightarrow> console (snd (dispatchEntries sub po es r)) = console r"
proof (induction es arbitrary: r)
  case Nil
  show ?case by simp
next
  case (Cons kv es)
  obtain k v where kv: "kv = (k, v)" by (cases kv)
  from Cons show ?case
    unfolding kv by (simp add: Let_def split: sum.splits)
qed

lemma refreshState_silent:
  "\<not> pluginFlag enableDebugLogs po \<Longrightarrow> console (snd (refreshState sub po lo ro r)) = console r"
  by (simp add: refreshState_def Let_def filterEntries_silent dispatchEntries_silent
      split: option.splits sum.splits)

lemma applyKey_grows: "\<exists>ls. console (snd (applyKey sub po u f kv r)) = console r @ ls"
  by (simp add: applyKey_def Let_def split: sum.splits)

lemma forEach_grows: "\<exists>ls. console (snd (forEach (applyKey sub po u f) m r)) = console r @ ls"
proof (induction m arbitrary: r)
  case Nil
  show ?case by simp
next
  case (Cons kv m)
  obtain l1 where l1: "console (snd (applyKey sub po u f kv r)) = console r @ l1"
    using applyKey_grows by blast
  obtain l2 where l2: "console (snd (forEach (applyKey sub po u f) m (snd (applyKey sub po u f kv r)))) =
      console (snd (applyKey sub po u f kv r)) @ l2"
    using Cons.IH by blast
  from l1 l2 show ?case by (simp add: Let_def)
qed

lemma applyKey_reports:
  assumes "get_prop sub (store r) K = Inr w" and "\<not> isReadonly sub w"
    and "set_prop sub (store r) K v = Inl e"
  shows "console (snd (applyKey sub po u f (K, v) r)) =
           console r @ [ConsoleError (store_id sub (store r)) (f @ quoted K) e]"
    and "fst (applyKey sub po u f (K, v) r) = None"
  using assms by (simp_all add: applyKey_def Let_def)

lemma forEach_reports:
  assumes reach: "fst (forEach (applyKey sub po u f) xs r) = None"
    and "get_prop sub (store (snd (forEach (applyKey sub po u f) xs r))) K = Inr w"
    and "\<not> isReadonly sub w"
    and "set_prop sub (store (snd (forEach (applyKey sub po u f) xs r))) K v = Inl e"
  shows "ConsoleError (store_id sub (store (snd (forEach (applyKey sub po u f) xs r))))
           (f @ quoted K) e
         \<in> set (console (snd (forEach (applyKey sub po u f) (xs @ (K, v) # ys) r)))"
proof -
  let ?rx = "snd (forEach (applyKey sub po u f) xs r)"
  let ?rk = "snd (applyKey sub po u f (K, v) ?rx)"
  have step: "console ?rk = console ?rx @ [ConsoleError (store_id sub (store ?rx)) (f @ quoted K) e]"
    and ok: "fst (applyKey sub po u f (K, v) ?rx) = None"
    using assms(2-4) by (rule applyKey_reports)+
  obtain ls where "console (snd (forEach (applyKey sub po u f) ys ?rk)) = console ?rk @ ls"
    using forEach_grows by blast
  with step reach ok show ?thesis
    by (simp add: forEach_append Let_def)
qed

subsection \<open>Keys that a pass leaves alone\<close>

lemma plainKeyD:
  "plainKey sub k \<Longrightarrow> k' \<noteq> k \<Longrightarrow> set_prop sub s k' v = Inr s' \<Longrightarrow> get_prop sub s' k = get_prop sub s k"
  unfolding plainKey_def by (elim allE [where x = s]) (elim allE [where x = k'], elim allE [where x = v], elim allE [where x = s'], simp)

lemma keyStep_other:
  assumes "plainKey sub k" and "k \<noteq> fst kv"
  shows "get_prop sub (fst (snd (keyStep sub kv s))) k = get_prop sub s k"
proof (cases "set_prop sub s (fst kv) (snd kv)")
  case (Inl e)
  then show ?thesis by (simp add: keyStep_def split: sum.splits)
next
  case (Inr s')
  from assms(2) have "fst kv \<noteq> k" by simp
  with assms(1) have "get_prop sub s' k = get_prop sub s k"
    using Inr by (rule plainKeyD)
  with Inr show ?thesis by (simp add: keyStep_def split: sum.splits)
qed

lemma keyStep_effects:
  "x \<in> set (snd (snd (keyStep sub kv s))) \<Longrightarrow> x = PropertyWrite (fst kv) (snd kv)"
  by (simp add: keyStep_def split: sum.splits if_splits)



lemma keyStep_readonly:
  assumes "plainKey sub K" and "get_prop sub s K = Inr w" and "isReadonly sub w"
  shows "get_prop sub (fst (snd (keyStep sub kv s))) K = Inr w"
    and "PropertyWrite K v \<notin> set (snd (snd (keyStep sub kv s)))"
proof -
  show "get_prop sub (fst (snd (keyStep sub kv s))) K = Inr w"
  proof (cases "fst kv = K")
    case True
    with assms(2,3) show ?thesis by (simp add: keyStep_def)
  next
    case False
    then have "K \<noteq> fst kv" by blast
    with assms(1) have "get_prop sub (fst (snd (keyStep sub kv s))) K = get_prop sub s K"
      by (rule keyStep_other)
    with assms(2) show ?thesis by simp
  qed
  show "PropertyWrite K v \<notin> set (snd (snd (keyStep sub kv s)))"
  proof (cases "fst kv = K")
    case True
    with assms(2,3) show ?thesis by (simp add: keyStep_def)
  next
    case False
    then show ?thesis by (auto dest: keyStep_effects)
  qed
qed

lemma passKeys_readonly:
  assumes "plainKey sub K" and "isReadonly sub w"
  shows "get_prop sub s K = Inr w \<Longrightarrow>
           get_prop sub (fst (snd (passKeys sub m s))) K = Inr w \<and>
           PropertyWrite K v \<notin> set (snd (snd (passKeys sub m s)))"
proof (induction m arbitrary: s)
  case Nil
  then show ?case by simp
next
  case (Cons kv m)
  have step: "get_prop sub (fst (snd (keyStep sub kv s))) K = Inr w"
    "PropertyWrite K v \<notin> set (snd (snd (keyStep sub kv s)))"
    using assms(1) Cons.prems assms(2) by (rule keyStep_readonly)+
  show ?case
  proof (cases "fst (keyStep sub kv s) = None")
    case False
    with step show ?thesis by (simp add: Let_def)
  next
    case True
    with Cons.IH [OF step(1)] step(2) show ?thesis by (simp add: Let_def)
  qed
qed

lemma slotBehaviour_cases:
  obtains
    (idle) "slotKeys field lo (store r) = {}" "slotBehaviour sub field lo r = (None, store r, effects r)"
  | (threw) e where "slotKeys field lo (store r) = {}"
      "slotBehaviour sub field lo r = (Some e, store r, effects r)"
  | (pass) m where "slotKeys field lo (store r) = fst ` set m"
      "slotBehaviour sub field lo r =
         (fst (passKeys sub m (store r)), fst (snd (passKeys sub m (store r))),
          effects r @ snd (snd (passKeys sub m (store r))))"
proof (cases "lifecycleField field lo")
  case None
  then show ?thesis by (intro idle) (simp_all add: slotKeys_def slotBehaviour_def)
next
  case (Some src)
  show ?thesis
  proof (cases "resolveSource src (store r)")
    case (Inl e)
    with Some show ?thesis by (intro threw) (simp_all add: slotKeys_def slotBehaviour_def)
  next
    case (Inr res)
    show ?thesis
    proof (cases res)
      case None
      with Some Inr show ?thesis by (intro idle) (simp_all add: slotKeys_def slotBehaviour_def)
    next
      case (Some m)
      with \<open>lifecycleField field lo = Some src\<close> Inr show ?thesis
        by (intro pass) (simp_all add: slotKeys_def slotBehaviour_def Let_def)
    qed
  qed
qed



lemma slotBehaviour_readonly:
  assumes "plainKey sub K" and "get_prop sub (store r) K = Inr w" and "isReadonly sub w"
  shows "get_prop sub (fst (snd (slotBehaviour sub field lo r))) K = get_prop sub (store r) K"
    and "PropertyWrite K v \<in> set (snd (snd (slotBehaviour sub field lo r))) \<Longrightarrow>
           PropertyWrite K v \<in> set (effects r)"
proof -
  note ro = passKeys_readonly [OF assms(1) assms(3) assms(2)]
  show "get_prop sub (fst (snd (slotBehaviour sub field lo r))) K = get_prop sub (store r) K"
  proof (cases rule: slotBehaviour_cases [of field lo r sub])
    case idle
    then show ?thesis by simp
  next
    case (threw e)
    then show ?thesis by simp
  next
    case (pass m)
    with assms(2) ro [of m] show ?thesis by simp
  qed
  show "PropertyWrite K v \<in> set (effects r)"
    if "PropertyWrite K v \<in> set (snd (snd (slotBehaviour sub field lo r)))"
  proof (cases rule: slotBehaviour_cases [of field lo r sub])
    case idle
    with that show ?thesis by simp
  next
    case (threw e)
    with that show ?thesis by simp
  next
    case (pass m)
    with that ro [of m v] show ?thesis by simp
  qed
qed

subsection \<open>A pass over a mapping given as an object\<close>

lemma slotBehaviour_withClean:
  "slotBehaviour sub clean (withClean m) r =
     (fst (passKeys sub m (store r)), fst (snd (passKeys sub m (store r))),
      effects r @ snd (snd (passKeys sub m (store r))))"
  by (simp add: slotBehaviour_def withClean_def lifecycleField_def resolveSource_def Let_def)

lemma slotBehaviour_withReConfigure:
  "slotBehaviour sub reConfigure (withReConfigure m) r =
     (fst (passKeys sub m (store r)), fst (snd (passKeys sub m (store r))),
      effects r @ snd (snd (passKeys sub m (store r))))"
  by (simp add: slotBehaviour_def withReConfigure_def lifecycleField_def resolveSource_def Let_def)

lemma propertyOperations_parts:
  assumes "op \<in> set (propertyOperations sub po)"
  shows "fst (op m r) = fst (passKeys sub m (store r))"
    and "store (snd (op m r)) = fst (snd (passKeys sub m (store r)))"
    and "effects (snd (op m r)) = effects r @ snd (snd (passKeys sub m (store r)))"
  using assms
  by (auto simp: propertyOperations_def resetState_parts reconfigureState_parts
      slotBehaviour_withClean slotBehaviour_withReConfigure)

lemma passKeys_without:
  assumes "keyStep sub (K, v) (fst (snd (passKeys sub xs s))) =
           (None, fst (snd (passKeys sub xs s)), attempt)"
  shows "fst (passKeys sub (xs @ (K, v) # ys) s) = fst (passKeys sub (xs @ ys) s)"
    and "fst (snd (passKeys sub (xs @ (K, v) # ys) s)) = fst (snd (passKeys sub (xs @ ys) s))"
    and "snd (snd (passKeys sub (xs @ (K, v) # ys) s)) =
         (if fst (passKeys sub xs s) \<noteq> None then snd (snd (passKeys sub xs s))
          else snd (snd (passKeys sub xs s)) @ attempt @
               snd (snd (passKeys sub ys (fst (snd (passKeys sub xs s))))))"
    and "snd (snd (passKeys sub (xs @ ys) s)) =
         (if fst (passKeys sub xs s) \<noteq> None then snd (snd (passKeys sub xs s))
          else snd (snd (passKeys sub xs s)) @
               snd (snd (passKeys sub ys (fst (snd (passKeys sub xs s))))))"
  using assms by (auto simp: passKeys_append Let_def)

lemma passKeys_then:
  assumes "fst (passKeys sub p s) = None"
    and "keyStep sub (K, v) (fst (snd (passKeys sub p s))) = (None, s', attempt)"
  shows "passKeys sub (p @ (K, v) # q) s =
           (fst (passKeys sub q s'), fst (snd (passKeys sub q s')),
            snd (snd (passKeys sub p s)) @ attempt @ snd (snd (passKeys sub q s')))"
  using assms by (simp add: passKeys_append Let_def)

lemma resetState_withClean:
  "resetState sub po (withClean m) r =
     (let dbg = pluginFlag enableDebugLogs po;
          r1 = (if dbg then debugLog (store_id sub (store r)) ''Initiating reset state operation''
                              ConfigData r
                else r);
          out = forEach (applyKey sub po ''Reset state: Updated '' ''Failed to reset state for key '')
                  m r1
      in if fst out \<noteq> None then out
         else (None,
               if dbg then debugLog (store_id sub (store (snd out)))
                             ''Reset state operation completed'' NoData (snd out)
               else snd out))"
  by (simp add: resetState_def resetKey_def withClean_def lifecycleField_def resolveSource_def Let_def)

lemma reconfigureState_withReConfigure:
  "reconfigureState sub po (withReConfigure m) r =
     (let dbg = pluginFlag enableDebugLogs po;
          r1 = (if dbg then debugLog (store_id sub (store r))
                              ''Initiating reconfigure state operation'' ConfigData r
                else r);
          out = forEach (applyKey sub po ''Reconfigure state: Updated ''
                           ''Failed to reconfigure state for key '') m r1
      in if fst out \<noteq> None then out
         else (None,
               if dbg then debugLog (store_id sub (store (snd out)))
                             ''Reconfigure state operation completed'' NoData (snd out)
               else snd out))"
  by (simp add: reconfigureState_def reconfigureKey_def withReConfigure_def lifecycleField_def
      resolveSource_def Let_def)

lemma pass_reports_failed_write:
  assumes out: "out = (\<lambda>m. forEach (applyKey sub po u f) m r1)"
    and res: "\<And>m. fst (res m) = fst (out m) \<and> store (snd (res m)) = store (snd (out m)) \<and>
                   set (console (snd (out m))) \<subseteq> set (console (snd (res m)))"
    and reach: "fst (res xs) = None"
    and "get_prop sub (store (snd (res xs))) K = Inr w" and "\<not> isReadonly sub w"
    and "set_prop sub (store (snd (res xs))) K v = Inl e"
  shows "ConsoleError (store_id sub (store (snd (res xs)))) (f @ quoted K) e
           \<in> set (console (snd (res (xs @ (K, v) # ys))))"
proof -
  from res [of xs] reach have r1: "fst (forEach (applyKey sub po u f) xs r1) = None"
    and st: "store (snd (res xs)) = store (snd (forEach (applyKey sub po u f) xs r1))"
    by (simp_all add: out)
  have "ConsoleError (store_id sub (store (snd (forEach (applyKey sub po u f) xs r1))))
           (f @ quoted K) e
         \<in> set (console (snd (forEach (applyKey sub po u f) (xs @ (K, v) # ys) r1)))"
    using r1 assms(4-6) unfolding st by (rule forEach_reports)
  with res [of "xs @ (K, v) # ys"] show ?thesis
    unfolding st by (auto simp: out)
qed

lemma resetState_reports:
  assumes "fst (resetState sub po (withClean xs) r) = None"
    and "get_prop sub (store (snd (resetState sub po (withClean xs) r))) K = Inr w"
    and "\<not> isReadonly sub w"
    and "set_prop sub (store (snd (resetState sub po (withClean xs) r))) K v = Inl e"
  shows "ConsoleError (store_id sub (store (snd (resetState sub po (withClean xs) r))))
           (''Failed to reset state for key '' @ quoted K) e
           \<in> set (console (snd (resetState sub po (withClean (xs @ (K, v) # ys)) r)))"
proof (rule pass_reports_failed_write [where res = "\<lambda>m. resetState sub po (withClean m) r",
      OF refl _ assms])
  fix m
  show "fst (resetState sub po (withClean m) r) =
          fst (forEach (applyKey sub po ''Reset state: Updated '' ''Failed to reset state for key '') m
                 (if pluginFlag enableDebugLogs po
                  then debugLog (store_id sub (store r)) ''Initiating reset state operation''
                         ConfigData r
                  else r)) \<and>
        store (snd (resetState sub po (withClean m) r)) =
          store (snd (forEach (applyKey sub po ''Reset state: Updated '' ''Failed to reset state for key '') m
                 (if pluginFlag enableDebugLogs po
                  then debugLog (store_id sub (store r)) ''Initiating reset state operation''
                         ConfigData r
                  else r))) \<and>
        set (console (snd (forEach (applyKey sub po ''Reset state: Updated '' ''Failed to reset state for key '') m
                 (if pluginFlag enableDebugLogs po
                  then debugLog (store_id sub (store r)) ''Initiating reset state operation''
                         ConfigData r
                  else r))))
          \<subseteq> set (console (snd (resetState sub po (withClean m) r)))"
    by (auto simp: resetState_withClean Let_def)
qed

lemma reconfigureState_reports:
  assumes "fst (reconfigureState sub po (withReConfigure xs) r) = None"
    and "get_prop sub (store (snd (reconfigureState sub po (withReConfigure xs) r))) K = Inr w"
    and "\<not> isReadonly sub w"
    and "set_prop sub (store (snd (reconfigureState sub po (withReConfigure xs) r))) K v = Inl e"
  shows "ConsoleError (store_id sub (store (snd (reconfigureState sub po (withReConfigure xs) r))))
           (''Failed to reconfigure state for key '' @ quoted K) e
           \<in> set (console (snd (reconfigureState sub po (withReConfigure (xs @ (K, v) # ys)) r)))"
proof (rule pass_reports_failed_write [where res = "\<lambda>m. reconfigureState sub po (withReConfigure m) r",
      OF refl _ assms])
  fix m
  show "fst (reconfigureState sub po (withReConfigure m) r) =
          fst (forEach (applyKey sub po ''Reconfigure state: Updated ''
                 ''Failed to reconfigure state for key '') m
                 (if pluginFlag enableDebugLogs po
                  then debugLog (store_id sub (store r)) ''Initiating reconfigure state operation''
                         ConfigData r
                  else r)) \<and>
        store (snd (reconfigureState sub po (withReConfigure m) r)) =
          store (snd (forEach (applyKey sub po ''Reconfigure state: Updated ''
                 ''Failed to reconfigure state for key '') m
                 (if pluginFlag enableDebugLogs po
                  then debugLog (store_id sub (store r)) ''Initiating reconfigure state operation''
                         ConfigData r
                  else r))) \<and>
        set (console (snd (forEach (applyKey sub po ''Reconfigure state: Updated ''
                 ''Failed to reconfigure state for key '') m
                 (if pluginFlag enableDebugLogs po
                  then debugLog (store_id sub (store r)) ''Initiating reconfigure state operation''
                         ConfigData r
                  else r))))
          \<subseteq> set (console (snd (reconfigureState sub po (withReConfigure m) r)))"
    by (auto simp: reconfigureState_withReConfigure Let_def)
qed

subsection \<open>The dispatch over a list of entries\<close>

lemma passDispatch_append:
  "passDispatch sub (xs @ ys) s =
     (let a = passDispatch sub xs s
      in if fst a \<noteq> None then a
         else (let b = passDispatch sub ys (fst (snd a))
               in (fst b, fst (snd b), snd (snd a) @ snd (snd b))))"
proof (induction xs arbitrary: s)
  case Nil
  show ?case by simp
next
  case (Cons kv xs)
  obtain k v where kv: "kv = (k, v)" by (cases kv)
  show ?case
    unfolding kv by (auto simp add: Cons.IH Let_def split: sum.splits)
qed

lemma passDispatch_missing:
  "get_prop sub s K = Inr a \<Longrightarrow> \<not> truthy sub a \<Longrightarrow>
     passDispatch sub ((K, v) # ys) s = passDispatch sub ys s"
  by simp

lemma passDispatch_called:
  "get_prop sub s K = Inr a \<Longrightarrow> truthy sub a \<Longrightarrow>
   call_action sub a (case v of None \<Rightarrow> [] | Some x \<Rightarrow> params x) s = Inr s' \<Longrightarrow>
     passDispatch sub ((K, v) # ys) s =
       (fst (passDispatch sub ys s'), fst (snd (passDispatch sub ys s')),
        ActionCall K (case v of None \<Rightarrow> [] | Some x \<Rightarrow> params x) # snd (snd (passDispatch sub ys s')))"
  by (simp add: Let_def)

lemma passDispatch_without:
  assumes "get_prop sub (fst (snd (passDispatch sub xs s))) K = Inr a" and "\<not> truthy sub a"
  shows "passDispatch sub (xs @ (K, v) # ys) s = passDispatch sub (xs @ ys) s"
  using assms by (simp add: passDispatch_append Let_def del: passDispatch.simps)
    (simp add: passDispatch_missing del: passDispatch.simps)

lemma passDispatch_then:
  assumes "fst (passDispatch sub p s) = None"
    and "get_prop sub (fst (snd (passDispatch sub p s))) K = Inr a" and "truthy sub a"
    and "call_action sub a (case v of None \<Rightarrow> [] | Some x \<Rightarrow> params x)
           (fst (snd (passDispatch sub p s))) = Inr s'"
  shows "passDispatch sub (p @ [(K, v)]) s =
           (None, s', snd (snd (passDispatch sub p s)) @
                      [ActionCall K (case v of None \<Rightarrow> [] | Some x \<Rightarrow> params x)])"
  using assms by (simp add: passDispatch_append Let_def del: passDispatch.simps)
    (simp add: Let_def)

lemma refreshBehaviour_withRefresh:
  "refreshBehaviour sub (withRefresh m) ro r =
     (let res = passDispatch sub
                  (filter (\<lambda>kv. shouldInclude (mode ro) (includeFlag ro) (snd kv)) m) (store r)
      in (fst res, fst (snd res), effects r @ snd (snd res)))"
  by (simp add: refreshBehaviour_def withRefresh_def lifecycleField_def resolveSource_def)

subsection \<open>The attachment gate\<close>

lemma registrationPolicy_table:
  "registrationPolicy po lo \<longleftrightarrow>
     (case lifecycleField disableListener lo of
        Some False \<Rightarrow> True
      | Some True \<Rightarrow> False
      | None \<Rightarrow> \<not> pluginFlag disableAutoRegister po)"
  by (auto simp: registrationPolicy_def split: option.splits bool.splits)

lemma attach_skipped:
  assumes "\<not> registrationPolicy po lo \<or>
           state_hasOwnProperty sub (store r) ''hasStoreLifecycleManagerListener'' \<or>
           ((\<not> hasWindow env \<or> \<not> hasDocument env) \<and> \<not> pluginFlag enableSSR po)"
  shows "behaviour (PiniaStoreLifecycleManager sub env lo handler po r) = (None, store r, effects r)"
  using assms by (auto simp: PiniaStoreLifecycleManager_def behaviour_def Let_def)

lemma attach_performed:
  assumes "registrationPolicy po lo"
    and "\<not> state_hasOwnProperty sub (store r) ''hasStoreLifecycleManagerListener''"
    and "(hasWindow env \<and> hasDocument env) \<or> pluginFlag enableSSR po"
    and keeps: "\<And>ev r'. HandlerCall \<in> set (effects r') \<Longrightarrow>
                  HandlerCall \<in> set (effects (snd (handler ev r')))"
  shows "HandlerCall \<in> set (effects (snd (PiniaStoreLifecycleManager sub env lo handler po r)))"
proof -
  define r3 where "r3 =
    (let v = ref_true sub;
         r1 = r\<lparr>store := state_set sub (store r) ''_hasStoreLifecycleManagerListener'' v,
                 effects := effects r @ [StateWrite ''_hasStoreLifecycleManagerListener'' v]\<rparr>;
         r2 = (if pluginFlag enableDebugLogs po
               then debugLog (store_id sub (store r1))
                      ''Attaching PiniaStoreLifecycleManager listener'' NoData r1
               else r1)
     in r2\<lparr>effects := effects r2 @ [HandlerCall]\<rparr>)"
  define out where "out = handler \<lparr>ev_reset = resetState sub po lo,
                            ev_reconfigure = reconfigureState sub po lo,
                            ev_refresh = refreshState sub po lo\<rparr> r3"
  have "HandlerCall \<in> set (effects r3)"
    by (simp add: r3_def Let_def)
  then have called: "HandlerCall \<in> set (effects (snd out))"
    unfolding out_def by (rule keeps)
  have "PiniaStoreLifecycleManager sub env lo handler po r =
        (if fst out \<noteq> None then out
         else
           (let w = toRef_state sub (store (snd out)) ''_hasStoreLifecycleManagerListener'';
                r5 = (snd out)\<lparr>effects := effects (snd out) @
                           [PropertyWrite ''_hasStoreLifecycleManagerListener'' w]\<rparr>
            in case set_prop sub (store r5) ''_hasStoreLifecycleManagerListener'' w of
                 Inl error \<Rightarrow> (Some error, r5)
               | Inr s' \<Rightarrow>
                   (None,
                    if pluginFlag enableDebugLogs po
                    then debugLog (store_id sub s')
                           ''PiniaStoreLifecycleManager listener attached successfully''
                           NoData (r5\<lparr>store := s'\<rparr>)
                    else r5\<lparr>store := s'\<rparr>)))"
    using assms(1-3) unfolding out_def r3_def
    by (auto simp: PiniaStoreLifecycleManager_def Let_def)
  with called show ?thesis
    by (simp add: Let_def split: sum.splits)
qed

lemma wiring_handler_keeps:
  "HandlerCall \<in> set (effects r') \<Longrightarrow> HandlerCall \<in> set (effects (snd (wiring_handler ev r')))"
  by (simp add: wiring_handler_def)

subsection \<open>Unfolding the small store\<close>

lemmas demo_defs =
  demo_def store_with_def demo_run_def example_store_def example_clean_def example_refresh_def
  silent_def verbose_def
  withSlots_def withClean_def withReConfigure_def withRefresh_def
  store_function_def noarg_function_def throwing_function_def
  lifecycleField_def pluginFlag_def resolveSource_def lookup_def demo_set_def demo_isReadonly_def
  demo_truthy_def demo_call_def

lemma plainKey_demo: "plainKey demo k"
  by (auto simp: plainKey_def demo_def store_with_def demo_set_def lookup_def update_conv'
      split: if_splits)

section \<open>The claims\<close>

text \<open>
  C1. \<^verbatim>\<open>refreshState\<close> filters the resolved action mapping with the mode and the flag
  \<^verbatim>\<open>includeResetOnlyActions\<close> (false when omitted). An entry of the mapping is kept
  exactly when: in partial mode it is not tagged \<^verbatim>\<open>resetOnly: true\<close>; in full mode
  with the flag omitted or false, always; in full mode with the flag true, it is tagged
  \<^verbatim>\<open>resetOnly: true\<close>. Nothing else is kept, and the entries kept are the ones that
  \<^verbatim>\<open>refreshState\<close> dispatches.
\<close>

theorem refresh_filter_truth_table:
  "((k, v) \<in> set (fst (filterEntries sub po (mode ro) (includeFlag ro) m r)) \<longleftrightarrow>
     (k, v) \<in> set m \<and>
     (if mode ro = Partial then \<not> (\<exists>a. v = Some a \<and> resetOnly a = Some True)
      else if includeResetOnlyActions ro = Some True
           then (\<exists>a. v = Some a \<and> resetOnly a = Some True)
           else True)) \<and>
   behaviour (refreshState sub po (withRefresh m) ro r) =
     behaviour (dispatchEntries sub po (fst (filterEntries sub po (mode ro) (includeFlag ro) m r)) r)"
proof -
  have tag: "actionResetOnly v \<longleftrightarrow> (\<exists>a. v = Some a \<and> resetOnly a = Some True)"
    by (auto simp: actionResetOnly_def split: option.splits)
  have "shouldInclude (mode ro) (includeFlag ro) v \<longleftrightarrow>
          (if mode ro = Partial then \<not> actionResetOnly v
           else if includeResetOnlyActions ro = Some True then actionResetOnly v else True)"
    by (cases "mode ro") (auto simp: shouldInclude_def includeFlag_def split: option.splits)
  then have kept: "(k, v) \<in> set (fst (filterEntries sub po (mode ro) (includeFlag ro) m r)) \<longleftrightarrow>
     (k, v) \<in> set m \<and>
     (if mode ro = Partial then \<not> (\<exists>a. v = Some a \<and> resetOnly a = Some True)
      else if includeResetOnlyActions ro = Some True
           then (\<exists>a. v = Some a \<and> resetOnly a = Some True)
           else True)"
    unfolding filterEntries_fst tag by auto
  have "behaviour (refreshState sub po (withRefresh m) ro r) =
     behaviour (dispatchEntries sub po (fst (filterEntries sub po (mode ro) (includeFlag ro) m r)) r)"
    by (simp only: refreshState_behaviour refreshBehaviour_withRefresh dispatchEntries_behaviour
        filterEntries_fst)
  with kept show ?thesis by blast
qed

theorem refresh_filter_truth_table_witness:
  "(''purge'', Some \<lparr>params = [JStr ''x''], resetOnly = Some True\<rparr>)
     \<in> set (fst (filterEntries demo silent Full True example_refresh (demo_run example_store))) \<and>
   (''load'', Some \<lparr>params = [], resetOnly = Some False\<rparr>)
     \<notin> set (fst (filterEntries demo silent Full True example_refresh (demo_run example_store)))"
  using refresh_filter_truth_table [of "''purge''" "Some \<lparr>params = [JStr ''x''], resetOnly = Some True\<rparr>"
      demo silent "\<lparr>mode = Full, includeResetOnlyActions = Some True\<rparr>" example_refresh
      "demo_run example_store"]
    refresh_filter_truth_table [of "''load''" "Some \<lparr>params = [], resetOnly = Some False\<rparr>"
      demo silent "\<lparr>mode = Full, includeResetOnlyActions = Some True\<rparr>" example_refresh
      "demo_run example_store"]
  by (simp add: includeFlag_def example_refresh_def)

text \<open>
  C2 does not hold of the code. The guard of line 84 reads the own property
  \<^verbatim>\<open>hasStoreLifecycleManagerListener\<close> of \<^verbatim>\<open>store.$state\<close>, while lines 92 and 105 write
  \<^verbatim>\<open>_hasStoreLifecycleManagerListener\<close>: the flag that the first invocation creates is
  never the one the guard looks for. On the small store, with no plugin options and no
  lifecycle options, the first invocation creates the flag and calls the handler, and a
  second invocation on the store it leaves calls the handler again.
\<close>

theorem second_invocation_attaches_again:
  "(let first = PiniaStoreLifecycleManager demo browser None wiring_handler None
                  (demo_run example_store);
        second = PiniaStoreLifecycleManager demo browser None wiring_handler None (snd first)
    in (fst first,
        state_hasOwnProperty demo (store (snd first)) ''_hasStoreLifecycleManagerListener'',
        filter (\<lambda>x. x = HandlerCall) (effects (snd first)),
        fst second,
        filter (\<lambda>x. x = HandlerCall) (effects (snd second)))) =
   (None, True, [HandlerCall], None, [HandlerCall, HandlerCall])"
  by (simp add: PiniaStoreLifecycleManager_def registrationPolicy_def wiring_handler_def browser_def
      demo_defs Let_def)

theorem second_invocation_attaches_again_witness:
  "length (filter (\<lambda>x. x = HandlerCall)
     (effects (snd (PiniaStoreLifecycleManager demo browser None wiring_handler None
        (snd (PiniaStoreLifecycleManager demo browser None wiring_handler None
                (demo_run example_store))))))) = 2"
  using second_invocation_attaches_again by (simp add: Let_def)

text \<open>
  C3. Take one of the two operations on a mapping with the entry \<open>(K, v)\<close> between the
  entries \<open>xs\<close> and \<open>ys\<close>. Let the pass get to \<open>K\<close> (the operation on \<open>xs\<close> returns), let
  \<^verbatim>\<open>store[K]\<close> read there a value that is not classified read-only, and let the
  assignment of \<open>v\<close> throw. Then:
  \<^item> the step over \<open>K\<close> throws nothing, leaves the store of the earlier keys as it is,
    and has attempted the assignment;
  \<^item> the operation throws exactly what it throws on the mapping without \<open>(K, v)\<close>, leaves
    the same store and, apart from the attempt on \<open>K\<close>, makes the same assignments;
  \<^item> every later key \<open>K'\<close> is still assigned: when the keys before it are passed without
    a throw, \<^verbatim>\<open>store[K']\<close> is not classified read-only and its setter accepts \<open>v'\<close>, the
    operation that ends with \<open>(K', v')\<close> returns with the store that this assignment
    gives, and the assignment is in the history of the operation on any longer mapping.
\<close>

theorem write_failure_is_isolated:
  assumes op: "op \<in> set (propertyOperations sub po)"
    and reach: "fst (op xs r) = None"
    and readable: "get_prop sub (store (snd (op xs r))) K = Inr w"
    and writable: "\<not> isReadonly sub w"
    and fails: "set_prop sub (store (snd (op xs r))) K v = Inl e"
  shows "fst (op (xs @ [(K, v)]) r) = None \<and>
         store (snd (op (xs @ [(K, v)]) r)) = store (snd (op xs r)) \<and>
         effects (snd (op (xs @ [(K, v)]) r)) = effects (snd (op xs r)) @ [PropertyWrite K v] \<and>
         fst (op (xs @ (K, v) # ys) r) = fst (op (xs @ ys) r) \<and>
         store (snd (op (xs @ (K, v) # ys) r)) = store (snd (op (xs @ ys) r)) \<and>
         filter (\<lambda>x. x \<noteq> PropertyWrite K v) (effects (snd (op (xs @ (K, v) # ys) r))) =
           filter (\<lambda>x. x \<noteq> PropertyWrite K v) (effects (snd (op (xs @ ys) r))) \<and>
         (\<forall>K' v' w' s'.
            fst (op (xs @ ys) r) = None \<and>
            get_prop sub (store (snd (op (xs @ ys) r))) K' = Inr w' \<and> \<not> isReadonly sub w' \<and>
            set_prop sub (store (snd (op (xs @ ys) r))) K' v' = Inr s' \<longrightarrow>
              fst (op (xs @ (K, v) # ys @ [(K', v')]) r) = None \<and>
              store (snd (op (xs @ (K, v) # ys @ [(K', v')]) r)) = s' \<and>
              PropertyWrite K' v'
                \<in> set (effects (snd (op (xs @ (K, v) # ys @ (K', v') # zs) r))))"
proof -
  note parts = propertyOperations_parts [OF op]
  let ?P = "\<lambda>m. passKeys sub m (store r)"
  let ?sx = "fst (snd (?P xs))"
  from reach have px: "fst (?P xs) = None" by (simp add: parts)
  from readable writable fails
  have step: "keyStep sub (K, v) ?sx = (None, ?sx, [PropertyWrite K v])"
    by (simp add: parts keyStep_failed)
  have one: "?P (xs @ [(K, v)]) = (None, ?sx, snd (snd (?P xs)) @ [PropertyWrite K v])"
    using passKeys_then [OF px step, of "[]"] by simp
  note without = passKeys_without [OF step, of ys]
  have later: "fst (op (xs @ (K, v) # ys @ [(K', v')]) r) = None \<and>
      store (snd (op (xs @ (K, v) # ys @ [(K', v')]) r)) = s' \<and>
      PropertyWrite K' v' \<in> set (effects (snd (op (xs @ (K, v) # ys @ (K', v') # zs) r)))"
    if h: "fst (op (xs @ ys) r) = None \<and>
      get_prop sub (store (snd (op (xs @ ys) r))) K' = Inr w' \<and> \<not> isReadonly sub w' \<and>
      set_prop sub (store (snd (op (xs @ ys) r))) K' v' = Inr s'" for K' v' w' s'
  proof -
    let ?p = "xs @ (K, v) # ys"
    from h have pp: "fst (?P ?p) = None"
      by (simp add: parts without(1))
    from h have "keyStep sub (K', v') (fst (snd (?P (xs @ ys)))) = (None, s', [PropertyWrite K' v'])"
      by (simp add: parts keyStep_written)
    then have step': "keyStep sub (K', v') (fst (snd (?P ?p))) = (None, s', [PropertyWrite K' v'])"
      by (simp add: without(2))
    have "?P (?p @ (K', v') # q) =
        (fst (passKeys sub q s'), fst (snd (passKeys sub q s')),
         snd (snd (?P ?p)) @ [PropertyWrite K' v'] @ snd (snd (passKeys sub q s')))" for q
      by (rule passKeys_then [OF pp step'])
    from this [of "[]"] this [of zs] show ?thesis
      by (simp add: parts)
  qed
  have first: "fst (op (xs @ [(K, v)]) r) = None \<and>
      store (snd (op (xs @ [(K, v)]) r)) = store (snd (op xs r)) \<and>
      effects (snd (op (xs @ [(K, v)]) r)) = effects (snd (op xs r)) @ [PropertyWrite K v]"
    using one by (simp add: parts)
  have second: "fst (op (xs @ (K, v) # ys) r) = fst (op (xs @ ys) r) \<and>
      store (snd (op (xs @ (K, v) # ys) r)) = store (snd (op (xs @ ys) r))"
    by (simp add: parts without(1,2))
  have third: "filter (\<lambda>x. x \<noteq> PropertyWrite K v) (effects (snd (op (xs @ (K, v) # ys) r))) =
        filter (\<lambda>x. x \<noteq> PropertyWrite K v) (effects (snd (op (xs @ ys) r)))"
    using px by (simp add: parts without(3,4))
  from first second third later show ?thesis by blast
qed

theorem write_failure_is_isolated_witness:
  "fst (resetState demo silent (withClean example_clean) (demo_run example_store)) = None \<and>
   get_prop demo (store (snd (resetState demo silent (withClean example_clean) (demo_run example_store))))
     ''user'' = Inr JNull \<and>
   effects (snd (resetState demo silent (withClean example_clean) (demo_run example_store))) =
     [PropertyWrite ''locked'' (JNum 0), PropertyWrite ''user'' JNull] \<and>
   fst (reconfigureState demo verbose (withReConfigure example_clean) (demo_run example_store)) = None \<and>
   get_prop demo (store (snd (reconfigureState demo verbose (withReConfigure example_clean)
                                (demo_run example_store)))) ''user'' = Inr JNull"
proof -
  have reset: "(\<lambda>m. resetState demo silent (withClean m)) \<in> set (propertyOperations demo silent)"
    and reconf: "(\<lambda>m. reconfigureState demo verbose (withReConfigure m))
                   \<in> set (propertyOperations demo verbose)"
    by (simp_all add: propertyOperations_def)
  have a: "fst (resetState demo silent (withClean [(''count'', JNum 0)]) (demo_run example_store)) = None"
    "get_prop demo (store (snd (resetState demo silent (withClean [(''count'', JNum 0)])
        (demo_run example_store)))) ''locked'' = Inr (JNum 1)"
    "\<not> isReadonly demo (JNum 1)"
    "set_prop demo (store (snd (resetState demo silent (withClean [(''count'', JNum 0)])
        (demo_run example_store)))) ''locked'' (JNum 0) = Inl ''TypeError''"
    by (simp_all add: demo_defs resetState_parts slotBehaviour_def keyStep_def Let_def)
  have b: "fst (reconfigureState demo verbose (withReConfigure [(''count'', JNum 0)])
        (demo_run example_store)) = None"
    "get_prop demo (store (snd (reconfigureState demo verbose (withReConfigure [(''count'', JNum 0)])
        (demo_run example_store)))) ''locked'' = Inr (JNum 1)"
    "set_prop demo (store (snd (reconfigureState demo verbose (withReConfigure [(''count'', JNum 0)])
        (demo_run example_store)))) ''locked'' (JNum 0) = Inl ''TypeError''"
    by (simp_all add: demo_defs reconfigureState_parts slotBehaviour_def keyStep_def Let_def)
  show ?thesis
    using write_failure_is_isolated [OF reset a(1) a(2) a(3) a(4), of "[]" "[]"]
      write_failure_is_isolated [OF reconf b(1) b(2) a(3) b(3), of "[]" "[]"]
    by (simp add: demo_defs resetState_parts reconfigureState_parts slotBehaviour_def keyStep_def
        Let_def)
qed

text \<open>
  C4. When the function of a slot throws while \<^verbatim>\<open>resetState\<close>, \<^verbatim>\<open>reconfigureState\<close> or
  \<^verbatim>\<open>refreshState\<close> resolves it, the operation throws that error to its caller, the store
  is the one it started from, and the history of effects has gained nothing: no property
  was assigned and no action was called.
\<close>

theorem resolver_error_propagates:
  "(lifecycleField clean lo = Some (Function n f) \<and>
    resolveSource (Function n f) (store r) = Inl e \<longrightarrow>
      behaviour (resetState sub po lo r) = (Some e, store r, effects r)) \<and>
   (lifecycleField reConfigure lo = Some (Function n f) \<and>
    resolveSource (Function n f) (store r) = Inl e \<longrightarrow>
      behaviour (reconfigureState sub po lo r) = (Some e, store r, effects r)) \<and>
   (lifecycleField refresh lo = Some (Function n g) \<and>
    resolveSource (Function n g) (store r) = Inl e \<longrightarrow>
      behaviour (refreshState sub po lo ro r) = (Some e, store r, effects r))"
  by (simp add: resetState_behaviour reconfigureState_behaviour refreshState_behaviour
      slotBehaviour_def refreshBehaviour_def)

theorem resolver_error_propagates_witness:
  "behaviour (resetState demo verbose (withSlots (Some throwing_function) None None)
       (demo_run example_store)) = (Some ''boom'', example_store, []) \<and>
   behaviour (reconfigureState demo verbose (withSlots None (Some throwing_function) None)
       (demo_run example_store)) = (Some ''boom'', example_store, []) \<and>
   behaviour (refreshState demo verbose (withSlots None None (Some throwing_function))
       \<lparr>mode = Full, includeResetOnlyActions = None\<rparr> (demo_run example_store)) =
     (Some ''boom'', example_store, [])"
  using resolver_error_propagates
    [where lo = "withSlots (Some throwing_function) None None" and n = 1
       and f = "\<lambda>arg. Inl ''boom''" and e = "''boom''"
       and r = "demo_run example_store" and sub = demo and po = verbose]
    resolver_error_propagates
    [where lo = "withSlots None (Some throwing_function) None" and n = 1
       and f = "\<lambda>arg. Inl ''boom''" and e = "''boom''"
       and r = "demo_run example_store" and sub = demo and po = verbose]
    resolver_error_propagates
    [where lo = "withSlots None None (Some throwing_function)" and n = 1
       and g = "\<lambda>arg. Inl ''boom''" and e = "''boom''"
       and r = "demo_run example_store" and sub = demo and po = verbose
       and ro = "\<lparr>mode = Full, includeResetOnlyActions = None\<rparr>"]
  by (simp add: withSlots_def lifecycleField_def resolveSource_def throwing_function_def demo_run_def)

text \<open>
  C5, as the claim states it, fails. In a store whose \<^verbatim>\<open>profile\<close> is a read-only view of
  \<^verbatim>\<open>user\<close>, the key \<^verbatim>\<open>profile\<close> is classified read-only and is in the mapping with a new
  value; the reset skips it and assigns \<^verbatim>\<open>user\<close>, and \<^verbatim>\<open>store.profile\<close> reads after the
  reset another value than before.
\<close>

theorem readonly_view_changes_without_being_written:
  "get_prop with_view shaped_store ''profile'' = Inr (JReadonly (JStr ''ann'')) \<and>
   isReadonly with_view (JReadonly (JStr ''ann'')) \<and>
   effects (snd (resetState with_view silent
      (withClean [(''profile'', JStr ''bob''), (''user'', JNull)]) (demo_run shaped_store))) =
     [PropertyWrite ''user'' JNull] \<and>
   get_prop with_view (store (snd (resetState with_view silent
      (withClean [(''profile'', JStr ''bob''), (''user'', JNull)]) (demo_run shaped_store))))
      ''profile'' = Inr (JReadonly JNull)"
  by (simp add: with_view_def shaped_store_def demo_defs resetState_parts slotBehaviour_def
      keyStep_def Let_def)

text \<open>
  C5, amended. An entry \<open>(K, v)\<close> of the mapping whose key is classified read-only when
  its turn comes (\<^verbatim>\<open>isReadonly(store[K])\<close> holds in the store that the entries before it
  have left) is skipped: each of the two operations throws the same, leaves the same store
  and makes the same assignments as on the mapping without the entry, so it never assigns
  \<open>K\<close> for it. And when \<^verbatim>\<open>store[K]\<close> is classified read-only as the operation starts and
  \<open>K\<close> is plain (no assignment to another key changes what it reads), \<^verbatim>\<open>resetState\<close> and
  \<^verbatim>\<open>reconfigureState\<close> never assign \<open>K\<close>, whatever the slot resolves to, and
  \<^verbatim>\<open>store[K]\<close> reads after the operation what it read before.
\<close>

theorem readonly_keys_are_never_written:
  "(\<forall>op \<in> set (propertyOperations sub po).
      get_prop sub (store (snd (op xs r))) K = Inr w \<and> isReadonly sub w \<longrightarrow>
        behaviour (op (xs @ (K, v) # ys) r) = behaviour (op (xs @ ys) r)) \<and>
   (get_prop sub (store r) K = Inr w \<and> isReadonly sub w \<and> plainKey sub K \<longrightarrow>
      get_prop sub (store (snd (resetState sub po lo r))) K = get_prop sub (store r) K \<and>
      (\<forall>u. PropertyWrite K u \<in> set (effects (snd (resetState sub po lo r))) \<longrightarrow>
           PropertyWrite K u \<in> set (effects r)) \<and>
      get_prop sub (store (snd (reconfigureState sub po lo r))) K = get_prop sub (store r) K \<and>
      (\<forall>u. PropertyWrite K u \<in> set (effects (snd (reconfigureState sub po lo r))) \<longrightarrow>
           PropertyWrite K u \<in> set (effects r)))"
proof (intro conjI ballI impI)
  fix op
  assume op: "op \<in> set (propertyOperations sub po)"
    and "get_prop sub (store (snd (op xs r))) K = Inr w \<and> isReadonly sub w"
  then have "keyStep sub (K, v) (fst (snd (passKeys sub xs (store r)))) =
      (None, fst (snd (passKeys sub xs (store r))), [])"
    by (simp add: propertyOperations_parts [OF op] keyStep_skipped)
  from passKeys_without [OF this, of ys]
  show "behaviour (op (xs @ (K, v) # ys) r) = behaviour (op (xs @ ys) r)"
    by (simp add: behaviour_def propertyOperations_parts [OF op])
next
  assume "get_prop sub (store r) K = Inr w \<and> isReadonly sub w \<and> plainKey sub K"
  then have rd: "get_prop sub (store r) K = Inr w" and ro: "isReadonly sub w"
    and plain: "plainKey sub K"
    by simp_all
  show "get_prop sub (store (snd (resetState sub po lo r))) K = get_prop sub (store r) K"
    using slotBehaviour_readonly(1) [OF plain rd ro] by (simp add: resetState_parts)
  show "\<forall>u. PropertyWrite K u \<in> set (effects (snd (resetState sub po lo r))) \<longrightarrow>
            PropertyWrite K u \<in> set (effects r)"
    using slotBehaviour_readonly(2) [OF plain rd ro] by (simp add: resetState_parts)
  show "get_prop sub (store (snd (reconfigureState sub po lo r))) K = get_prop sub (store r) K"
    using slotBehaviour_readonly(1) [OF plain rd ro] by (simp add: reconfigureState_parts)
  show "\<forall>u. PropertyWrite K u \<in> set (effects (snd (reconfigureState sub po lo r))) \<longrightarrow>
            PropertyWrite K u \<in> set (effects r)"
    using slotBehaviour_readonly(2) [OF plain rd ro] by (simp add: reconfigureState_parts)
qed

theorem readonly_keys_are_never_written_witness:
  "behaviour (resetState demo verbose (withClean example_clean) (demo_run example_store)) =
   behaviour (resetState demo verbose (withClean [(''locked'', JNum 0), (''user'', JNull)])
                (demo_run example_store)) \<and>
   behaviour (reconfigureState demo verbose (withReConfigure example_clean) (demo_run example_store)) =
   behaviour (reconfigureState demo verbose (withReConfigure [(''locked'', JNum 0), (''user'', JNull)])
                (demo_run example_store)) \<and>
   get_prop demo (store (snd (resetState demo verbose (withClean example_clean) (demo_run example_store))))
     ''count'' = Inr (JReadonly (JNum 7)) \<and>
   PropertyWrite ''count'' (JNum 0)
     \<notin> set (effects (snd (resetState demo verbose (withClean example_clean) (demo_run example_store))))"
  using readonly_keys_are_never_written [of demo verbose "[]" "demo_run example_store" "''count''"
      "JReadonly (JNum 7)" "JNum 0" "[(''locked'', JNum 0), (''user'', JNull)]"
      "withClean example_clean"]
    plainKey_demo [of "''count''"]
  by (simp add: propertyOperations_def demo_defs resetState_parts reconfigureState_parts
      slotBehaviour_def keyStep_def Let_def)

text \<open>
  The guard of lines 163 and 224 classifies the value that the read hands out. A getter
  without a setter is handed out unwrapped, so the guard does not hold of it: on a store
  whose \<^verbatim>\<open>count\<close> is a getter computed from \<^verbatim>\<open>items\<close>, \<^verbatim>\<open>resetState\<close> attempts the
  assignment to \<^verbatim>\<open>count\<close> and reports the error that the assignment throws.
\<close>

lemma computed_getter_is_assigned:
  "get_prop with_getter shaped_store ''count'' = Inr (JNum 7) \<and>
   \<not> isReadonly with_getter (JNum 7) \<and>
   effects (snd (resetState with_getter verbose (withClean [(''count'', JNum 0)])
      (demo_run shaped_store))) = [PropertyWrite ''count'' (JNum 0)] \<and>
   filter isErrorLine (console (snd (resetState with_getter verbose (withClean [(''count'', JNum 0)])
      (demo_run shaped_store)))) =
     [ConsoleError ''shaped'' (''Failed to reset state for key '' @ quoted ''count'') ''TypeError'']"
  by (simp add: with_getter_def shaped_store_def demo_defs resetState_def resetKey_def applyKey_def
      Let_def)

text \<open>
  C6. Let the environment check pass (window and document exist, or \<^verbatim>\<open>enableSSR\<close> is
  set), let \<^verbatim>\<open>store.$state\<close> have no own property under the key that the guard reads, and
  let the handler be one that does not erase the record of its own call. Then the entry
  point calls the handler exactly when: \<^verbatim>\<open>disableListener\<close> is false (whatever
  \<^verbatim>\<open>disableAutoRegister\<close> is); never when \<^verbatim>\<open>disableListener\<close> is true; and, when
  \<^verbatim>\<open>disableListener\<close> is absent, when \<^verbatim>\<open>disableAutoRegister\<close> is false or absent.
\<close>

theorem attachment_gate_override_semantics:
  assumes client: "(hasWindow env \<and> hasDocument env) \<or> pluginFlag enableSSR po"
    and fresh: "\<not> state_hasOwnProperty sub (store r) ''hasStoreLifecycleManagerListener''"
    and before: "HandlerCall \<notin> set (effects r)"
    and keeps: "\<And>ev r'. HandlerCall \<in> set (effects r') \<Longrightarrow>
                  HandlerCall \<in> set (effects (snd (handler ev r')))"
  shows "HandlerCall \<in> set (effects (snd (PiniaStoreLifecycleManager sub env lo handler po r))) \<longleftrightarrow>
         (case lifecycleField disableListener lo of
            Some False \<Rightarrow> True
          | Some True \<Rightarrow> False
          | None \<Rightarrow> \<not> pluginFlag disableAutoRegister po)"
proof (cases "registrationPolicy po lo")
  case True
  then have "HandlerCall \<in> set (effects (snd (PiniaStoreLifecycleManager sub env lo handler po r)))"
    using fresh client keeps by (rule attach_performed)
  with True show ?thesis by (simp add: registrationPolicy_table)
next
  case False
  then have "behaviour (PiniaStoreLifecycleManager sub env lo handler po r) = (None, store r, effects r)"
    by (simp add: attach_skipped)
  then have "effects (snd (PiniaStoreLifecycleManager sub env lo handler po r)) = effects r"
    by (simp add: behaviour_def)
  with False before show ?thesis by (simp add: registrationPolicy_table)
qed

theorem attachment_gate_override_semantics_witness:
  "HandlerCall \<in> set (effects (snd (PiniaStoreLifecycleManager demo browser (withListener (Some False))
      wiring_handler manual (demo_run example_store)))) \<and>
   HandlerCall \<notin> set (effects (snd (PiniaStoreLifecycleManager demo browser (withListener (Some True))
      wiring_handler None (demo_run example_store)))) \<and>
   HandlerCall \<notin> set (effects (snd (PiniaStoreLifecycleManager demo browser (withListener None)
      wiring_handler manual (demo_run example_store)))) \<and>
   HandlerCall \<in> set (effects (snd (PiniaStoreLifecycleManager demo browser None
      wiring_handler silent (demo_run example_store))))"
proof -
  have client: "(hasWindow browser \<and> hasDocument browser) \<or> pluginFlag enableSSR po" for po
    by (simp add: browser_def)
  have fresh: "\<not> state_hasOwnProperty demo (store (demo_run example_store))
                   ''hasStoreLifecycleManagerListener''"
    by (simp add: demo_defs)
  have before: "HandlerCall \<notin> set (effects (demo_run example_store))"
    by (simp add: demo_run_def)
  note gate = attachment_gate_override_semantics [OF client fresh before wiring_handler_keeps]
  show ?thesis
    using gate [where po = manual and lo = "withListener (Some False)"]
      gate [where po = None and lo = "withListener (Some True)"]
      gate [where po = manual and lo = "withListener None"]
      gate [where po = silent and lo = None]
    by (simp add: withListener_def manual_def silent_def lifecycleField_def pluginFlag_def)
qed

text \<open>
  C7. An object resolves to itself, a function that declares a parameter to what it
  returns on the store, a function without parameters to what it returns on no argument.
  Two declarations of the \<^verbatim>\<open>clean\<close> slot (of the \<^verbatim>\<open>reConfigure\<close> slot) whose sources
  resolve alike on the store make \<^verbatim>\<open>resetState\<close> (\<^verbatim>\<open>reconfigureState\<close>) throw the same,
  leave the same store and attempt the same assignments, whatever the shapes of the two
  sources.
\<close>

theorem source_shape_is_irrelevant:
  "resolveSource (Static m) s = Inr (Some m) \<and>
   resolveSource (Function (Suc n) f) s = f (Some s) \<and>
   resolveSource (Function 0 g) s = g None \<and>
   (lifecycleField clean lo = Some src \<and> lifecycleField clean lo' = Some src' \<and>
    resolveSource src (store r) = resolveSource src' (store r) \<longrightarrow>
      behaviour (resetState sub po lo r) = behaviour (resetState sub po lo' r)) \<and>
   (lifecycleField reConfigure lo = Some src \<and> lifecycleField reConfigure lo' = Some src' \<and>
    resolveSource src (store r) = resolveSource src' (store r) \<longrightarrow>
      behaviour (reconfigureState sub po lo r) = behaviour (reconfigureState sub po lo' r))"
  by (simp add: resolveSource_shapes resetState_behaviour reconfigureState_behaviour slotBehaviour_def)

theorem source_shape_is_irrelevant_witness:
  "behaviour (resetState demo silent (withSlots (Some (Static example_clean)) None None)
       (demo_run example_store)) =
   behaviour (resetState demo silent (withSlots (Some (store_function example_clean)) None None)
       (demo_run example_store)) \<and>
   behaviour (reconfigureState demo silent (withSlots None (Some (store_function example_clean)) None)
       (demo_run example_store)) =
   behaviour (reconfigureState demo silent (withSlots None (Some (noarg_function example_clean)) None)
       (demo_run example_store))"
  using source_shape_is_irrelevant
    [where lo = "withSlots (Some (Static example_clean)) None None"
       and lo' = "withSlots (Some (store_function example_clean)) None None"
       and src = "Static example_clean" and src' = "store_function example_clean"
       and r = "demo_run example_store" and sub = demo and po = silent]
    source_shape_is_irrelevant
    [where lo = "withSlots None (Some (store_function example_clean)) None"
       and lo' = "withSlots None (Some (noarg_function example_clean)) None"
       and src = "store_function example_clean" and src' = "noarg_function example_clean"
       and r = "demo_run example_store" and sub = demo and po = silent]
  by (simp add: withSlots_def lifecycleField_def resolveSource_def store_function_def
      noarg_function_def demo_run_def)

text \<open>
  C8, as the claim states it, fails. \<^verbatim>\<open>refreshState\<close> tests only whether \<^verbatim>\<open>store[key]\<close> is
  truthy (line 320). The store has no action under \<^verbatim>\<open>user\<close>, which holds a string: the
  call of line 327 throws, \<^verbatim>\<open>refreshState\<close> throws, and \<^verbatim>\<open>purge\<close>, which comes after
  it, is not dispatched.
\<close>

theorem truthy_non_action_aborts_refresh:
  "get_prop demo example_store ''user'' = Inr (JStr ''ann'') \<and>
   behaviour (refreshState demo silent
       (withRefresh [(''user'', Some \<lparr>params = [], resetOnly = None\<rparr>),
                     (''purge'', Some \<lparr>params = [JStr ''x''], resetOnly = None\<rparr>)])
       \<lparr>mode = Full, includeResetOnlyActions = None\<rparr> (demo_run example_store)) =
     (Some ''TypeError'', example_store, [ActionCall ''user'' []])"
  by (simp add: demo_defs refreshState_behaviour refreshBehaviour_def shouldInclude_def
      includeFlag_def Let_def)

text \<open>
  C8, amended. Take an action mapping with the entry \<open>(K, v)\<close> between the entries \<open>xs\<close>
  and \<open>ys\<close>. Let the dispatch get to \<open>K\<close> (\<^verbatim>\<open>refreshState\<close> on \<open>xs\<close> returns) and let
  \<^verbatim>\<open>store[K]\<close> read there a falsy value, as it does when the store has nothing under
  \<open>K\<close>. Then:
  \<^item> the entry throws nothing and calls nothing: \<^verbatim>\<open>refreshState\<close> on \<open>xs\<close> followed by
    the entry behaves as on \<open>xs\<close>;
  \<^item> \<^verbatim>\<open>refreshState\<close> behaves on the whole mapping as on the mapping without the entry;
  \<^item> the dispatch goes on: when the entries before a later entry \<open>(K', v')\<close> are
    dispatched without a throw, the entry survives the filter, \<^verbatim>\<open>store[K']\<close> is truthy
    and its call returns, then \<^verbatim>\<open>refreshState\<close> on the mapping that ends with
    \<open>(K', v')\<close> returns with the store that this call leaves, and the call, with the
    entry's parameters, is the last of its effects.
\<close>

theorem missing_action_is_skipped:
  assumes reach: "fst (refreshState sub po (withRefresh xs) ro r) = None"
    and read: "get_prop sub (store (snd (refreshState sub po (withRefresh xs) ro r))) K = Inr a"
    and falsy: "\<not> truthy sub a"
  shows "behaviour (refreshState sub po (withRefresh (xs @ [(K, v)])) ro r) =
           behaviour (refreshState sub po (withRefresh xs) ro r) \<and>
         behaviour (refreshState sub po (withRefresh (xs @ (K, v) # ys)) ro r) =
           behaviour (refreshState sub po (withRefresh (xs @ ys)) ro r) \<and>
         (\<forall>K' v' a' s'.
            fst (refreshState sub po (withRefresh (xs @ ys)) ro r) = None \<and>
            shouldInclude (mode ro) (includeFlag ro) v' \<and>
            get_prop sub (store (snd (refreshState sub po (withRefresh (xs @ ys)) ro r))) K' = Inr a' \<and>
            truthy sub a' \<and>
            call_action sub a' (case v' of None \<Rightarrow> [] | Some x \<Rightarrow> params x)
              (store (snd (refreshState sub po (withRefresh (xs @ ys)) ro r))) = Inr s' \<longrightarrow>
              behaviour (refreshState sub po (withRefresh (xs @ (K, v) # ys @ [(K', v')])) ro r) =
                (None, s',
                 effects (snd (refreshState sub po (withRefresh (xs @ ys)) ro r)) @
                 [ActionCall K' (case v' of None \<Rightarrow> [] | Some x \<Rightarrow> params x)]))"
proof -
  let ?keep = "\<lambda>kv. shouldInclude (mode ro) (includeFlag ro) (snd kv)"
  let ?D = "\<lambda>m. passDispatch sub (filter ?keep m) (store r)"
  have parts: "fst (refreshState sub po (withRefresh m) ro r) = fst (?D m)"
    "store (snd (refreshState sub po (withRefresh m) ro r)) = fst (snd (?D m))"
    "effects (snd (refreshState sub po (withRefresh m) ro r)) = effects r @ snd (snd (?D m))" for m
    by (simp_all add: refreshState_parts refreshBehaviour_withRefresh Let_def)
  from read have missing: "get_prop sub (fst (snd (?D xs))) K = Inr a"
    by (simp add: parts)
  have without: "?D (xs @ (K, v) # q) = ?D (xs @ q)" for q
  proof (cases "?keep (K, v)")
    case True
    then have "filter ?keep (xs @ (K, v) # q) = filter ?keep xs @ (K, v) # filter ?keep q"
      by simp
    with passDispatch_without [OF missing falsy] show ?thesis by simp
  next
    case False
    then show ?thesis by simp
  qed
  have first: "behaviour (refreshState sub po (withRefresh (xs @ [(K, v)])) ro r) =
      behaviour (refreshState sub po (withRefresh xs) ro r)"
    using without [of "[]"] by (simp add: behaviour_def parts)
  have second: "behaviour (refreshState sub po (withRefresh (xs @ (K, v) # ys)) ro r) =
      behaviour (refreshState sub po (withRefresh (xs @ ys)) ro r)"
    using without [of ys] by (simp add: behaviour_def parts)
  have later: "behaviour (refreshState sub po (withRefresh (xs @ (K, v) # ys @ [(K', v')])) ro r) =
      (None, s',
       effects (snd (refreshState sub po (withRefresh (xs @ ys)) ro r)) @
       [ActionCall K' (case v' of None \<Rightarrow> [] | Some x \<Rightarrow> params x)])"
    if h: "fst (refreshState sub po (withRefresh (xs @ ys)) ro r) = None \<and>
      shouldInclude (mode ro) (includeFlag ro) v' \<and>
      get_prop sub (store (snd (refreshState sub po (withRefresh (xs @ ys)) ro r))) K' = Inr a' \<and>
      truthy sub a' \<and>
      call_action sub a' (case v' of None \<Rightarrow> [] | Some x \<Rightarrow> params x)
        (store (snd (refreshState sub po (withRefresh (xs @ ys)) ro r))) = Inr s'" for K' v' a' s'
  proof -
    from h have h1: "fst (?D (xs @ ys)) = None"
      and h2: "get_prop sub (fst (snd (?D (xs @ ys)))) K' = Inr a'"
      and h3: "truthy sub a'"
      and h4: "call_action sub a' (case v' of None \<Rightarrow> [] | Some x \<Rightarrow> params x)
                 (fst (snd (?D (xs @ ys)))) = Inr s'"
      and keep: "?keep (K', v')"
      by (simp_all add: parts del: filter_append)
    from keep have "filter ?keep ((xs @ ys) @ [(K', v')]) = filter ?keep (xs @ ys) @ [(K', v')]"
      by (simp del: append_assoc)
    with passDispatch_then [OF h1 h2 h3 h4]
    have "?D ((xs @ ys) @ [(K', v')]) =
        (None, s', snd (snd (?D (xs @ ys))) @
                   [ActionCall K' (case v' of None \<Rightarrow> [] | Some x \<Rightarrow> params x)])"
      by (simp only:)
    with without [of "ys @ [(K', v')]"] show ?thesis
      by (simp add: behaviour_def parts)
  qed
  from first second later show ?thesis by blast
qed

theorem missing_action_is_skipped_witness:
  "behaviour (refreshState demo silent
       (withRefresh [(''load'', Some \<lparr>params = [], resetOnly = None\<rparr>), (''sync'', None),
                     (''purge'', Some \<lparr>params = [JStr ''x''], resetOnly = None\<rparr>)])
       \<lparr>mode = Full, includeResetOnlyActions = None\<rparr> (demo_run example_store)) =
   (None, example_store\<lparr>ds_calls := [(''load'', []), (''purge'', [JStr ''x''])]\<rparr>,
    [ActionCall ''load'' [], ActionCall ''purge'' [JStr ''x'']])"
proof -
  let ?xs = "[(''load'', Some \<lparr>params = [], resetOnly = None\<rparr>)]"
  let ?ro = "\<lparr>mode = Full, includeResetOnlyActions = None\<rparr>"
  have reach: "fst (refreshState demo silent (withRefresh ?xs) ?ro (demo_run example_store)) = None"
    and read: "get_prop demo (store (snd (refreshState demo silent (withRefresh ?xs) ?ro
       (demo_run example_store)))) ''sync'' = Inr JUndefined"
    and falsy: "\<not> truthy demo JUndefined"
    by (simp_all add: demo_defs refreshState_parts refreshBehaviour_def shouldInclude_def
        includeFlag_def Let_def)
  show ?thesis
    using missing_action_is_skipped [OF reach read falsy, of None "[]"]
    by (simp add: demo_defs refreshState_behaviour refreshBehaviour_def shouldInclude_def
        includeFlag_def Let_def)
qed

text \<open>
  C9, as the claim states it, fails: with \<^verbatim>\<open>enableDebugLogs\<close> false, a reset whose
  assignment to \<^verbatim>\<open>locked\<close> throws still prints the error report of line 180, which no
  test of \<^verbatim>\<open>enableDebugLogs\<close> guards.
\<close>

theorem silent_reset_reports_write_error:
  "\<not> pluginFlag enableDebugLogs silent \<and>
   console (snd (resetState demo silent (withClean [(''locked'', JNum 0)]) (demo_run example_store))) =
     [ConsoleError ''example'' (''Failed to reset state for key '' @ quoted ''locked'') ''TypeError'']"
  by (simp add: demo_defs resetState_def resetKey_def applyKey_def Let_def devError_def)

text \<open>
  C9, amended. The diagnostics never steer the operations: under any two plugin options
  \<^verbatim>\<open>resetState\<close>, \<^verbatim>\<open>reconfigureState\<close> and \<^verbatim>\<open>refreshState\<close> throw the same, leave the same
  store and have the same effects. When \<^verbatim>\<open>enableDebugLogs\<close> is false or absent,
  \<^verbatim>\<open>resetState\<close> and \<^verbatim>\<open>reconfigureState\<close> add nothing to the console but error reports
  (no debug line, no warning about a non-writable property), and \<^verbatim>\<open>refreshState\<close> adds
  nothing at all. And a failed assignment is reported under any plugin options, so
  whatever \<^verbatim>\<open>enableDebugLogs\<close> is: when the pass gets to a key \<open>K\<close> that is not
  classified read-only and the assignment to it throws \<open>e\<close>, the console of the operation
  holds the error report with the store's id, the operation's message for \<open>K\<close> and \<open>e\<close>.
\<close>

theorem diagnostics_do_not_steer:
  "behaviour (resetState sub po lo r) = behaviour (resetState sub po' lo r) \<and>
   behaviour (reconfigureState sub po lo r) = behaviour (reconfigureState sub po' lo r) \<and>
   behaviour (refreshState sub po lo ro r) = behaviour (refreshState sub po' lo ro r) \<and>
   (\<not> pluginFlag enableDebugLogs po \<longrightarrow>
      (\<exists>ls. console (snd (resetState sub po lo r)) = console r @ ls \<and> list_all isErrorLine ls) \<and>
      (\<exists>ls. console (snd (reconfigureState sub po lo r)) = console r @ ls \<and> list_all isErrorLine ls) \<and>
      console (snd (refreshState sub po lo ro r)) = console r) \<and>
   (fst (resetState sub po (withClean xs) r) = None \<and>
    get_prop sub (store (snd (resetState sub po (withClean xs) r))) K = Inr w \<and>
    \<not> isReadonly sub w \<and>
    set_prop sub (store (snd (resetState sub po (withClean xs) r))) K v = Inl e \<longrightarrow>
      ConsoleError (store_id sub (store (snd (resetState sub po (withClean xs) r))))
          (''Failed to reset state for key '' @ quoted K) e
        \<in> set (console (snd (resetState sub po (withClean (xs @ (K, v) # ys)) r)))) \<and>
   (fst (reconfigureState sub po (withReConfigure xs) r) = None \<and>
    get_prop sub (store (snd (reconfigureState sub po (withReConfigure xs) r))) K = Inr w \<and>
    \<not> isReadonly sub w \<and>
    set_prop sub (store (snd (reconfigureState sub po (withReConfigure xs) r))) K v = Inl e \<longrightarrow>
      ConsoleError (store_id sub (store (snd (reconfigureState sub po (withReConfigure xs) r))))
          (''Failed to reconfigure state for key '' @ quoted K) e
        \<in> set (console (snd (reconfigureState sub po (withReConfigure (xs @ (K, v) # ys)) r))))"
proof -
  have same: "behaviour (resetState sub po lo r) = behaviour (resetState sub po' lo r) \<and>
      behaviour (reconfigureState sub po lo r) = behaviour (reconfigureState sub po' lo r) \<and>
      behaviour (refreshState sub po lo ro r) = behaviour (refreshState sub po' lo ro r)"
    by (simp only: resetState_behaviour reconfigureState_behaviour refreshState_behaviour)
  have quiet: "\<not> pluginFlag enableDebugLogs po \<longrightarrow>
      (\<exists>ls. console (snd (resetState sub po lo r)) = console r @ ls \<and> list_all isErrorLine ls) \<and>
      (\<exists>ls. console (snd (reconfigureState sub po lo r)) = console r @ ls \<and> list_all isErrorLine ls) \<and>
      console (snd (refreshState sub po lo ro r)) = console r"
    using resetState_silent [of po sub lo r] reconfigureState_silent [of po sub lo r]
      refreshState_silent [of po sub lo ro r]
    by blast
  from same quiet resetState_reports [of sub po xs r K w v e ys]
    reconfigureState_reports [of sub po xs r K w v e ys]
  show ?thesis by blast
qed

theorem diagnostics_do_not_steer_witness:
  "behaviour (resetState demo silent (withClean example_clean) (demo_run example_store)) =
   behaviour (resetState demo verbose (withClean example_clean) (demo_run example_store)) \<and>
   ConsoleError ''example'' (''Failed to reset state for key '' @ quoted ''locked'') ''TypeError''
     \<in> set (console (snd (resetState demo silent (withClean example_clean) (demo_run example_store)))) \<and>
   ConsoleError ''example'' (''Failed to reset state for key '' @ quoted ''locked'') ''TypeError''
     \<in> set (console (snd (resetState demo verbose (withClean example_clean) (demo_run example_store)))) \<and>
   console (snd (refreshState demo silent (withRefresh example_refresh)
      \<lparr>mode = Partial, includeResetOnlyActions = None\<rparr> (demo_run example_store))) = []"
proof -
  have a: "fst (resetState demo po (withClean [(''count'', JNum 0)]) (demo_run example_store)) = None"
    "get_prop demo (store (snd (resetState demo po (withClean [(''count'', JNum 0)])
        (demo_run example_store)))) ''locked'' = Inr (JNum 1)"
    "\<not> isReadonly demo (JNum 1)"
    "set_prop demo (store (snd (resetState demo po (withClean [(''count'', JNum 0)])
        (demo_run example_store)))) ''locked'' (JNum 0) = Inl ''TypeError''"
    "store_id demo (store (snd (resetState demo po (withClean [(''count'', JNum 0)])
        (demo_run example_store)))) = ''example''" for po
    by (simp_all add: demo_defs resetState_parts slotBehaviour_def keyStep_def Let_def)
  have quiet: "\<not> pluginFlag enableDebugLogs silent"
    and empty: "console (demo_run example_store) = []"
    by (simp_all add: silent_def pluginFlag_def demo_run_def)
  show ?thesis
    using diagnostics_do_not_steer [of demo silent "withClean example_clean" "demo_run example_store"
        verbose "\<lparr>mode = Partial, includeResetOnlyActions = None\<rparr>" "[(''count'', JNum 0)]"
        "''locked''" "JNum 1" "JNum 0" "''TypeError''" "[(''user'', JNull)]"]
      diagnostics_do_not_steer [of demo verbose "withRefresh example_refresh" "demo_run example_store"
        silent "\<lparr>mode = Partial, includeResetOnlyActions = None\<rparr>" "[(''count'', JNum 0)]"
        "''locked''" "JNum 1" "JNum 0" "''TypeError''" "[(''user'', JNull)]"]
      diagnostics_do_not_steer [of demo silent "withRefresh example_refresh" "demo_run example_store"
        verbose "\<lparr>mode = Partial, includeResetOnlyActions = None\<rparr>" "[(''count'', JNum 0)]"
        "''locked''" "JNum 1" "JNum 0" "''TypeError''" "[(''user'', JNull)]"]
    by (simp add: a quiet empty example_clean_def)
qed

text \<open>
  Two more paths of the pass, on a store whose \<^verbatim>\<open>name\<close> has a getter that throws while
  it holds \<^verbatim>\<open>null\<close>. A reset that assigns \<^verbatim>\<open>null\<close> to it succeeds; under
  \<^verbatim>\<open>enableDebugLogs\<close> the read of line 176 then throws inside the \<^verbatim>\<open>try\<close> and is
  reported, and without \<^verbatim>\<open>enableDebugLogs\<close> nothing is read or reported. A second reset
  throws: the read of line 163 is outside the \<^verbatim>\<open>try\<close>.
\<close>

lemma readback_failure_is_reported_under_debug_only:
  "behaviour (resetState with_strict verbose (withClean [(''name'', JNull)]) (demo_run shaped_store)) =
   behaviour (resetState with_strict silent (withClean [(''name'', JNull)]) (demo_run shaped_store)) \<and>
   filter isErrorLine (console (snd (resetState with_strict verbose (withClean [(''name'', JNull)])
      (demo_run shaped_store)))) =
     [ConsoleError ''shaped'' (''Failed to reset state for key '' @ quoted ''name'') ''TypeError''] \<and>
   console (snd (resetState with_strict silent (withClean [(''name'', JNull)])
      (demo_run shaped_store))) = []"
  by (simp add: with_strict_def shaped_store_def demo_defs resetState_def resetKey_def applyKey_def
      behaviour_def Let_def)

lemma reset_throws_when_a_read_throws:
  "resetState with_strict silent (withClean [(''name'', JStr ''bob''), (''user'', JNull)])
     (snd (resetState with_strict silent (withClean [(''name'', JNull)]) (demo_run shaped_store))) =
   (Some ''TypeError'',
    snd (resetState with_strict silent (withClean [(''name'', JNull)]) (demo_run shaped_store)))"
  by (simp add: with_strict_def shaped_store_def demo_defs resetState_def resetKey_def applyKey_def
      Let_def)



end
